theory Spec2Isabelle
  imports Main "HOL-Library.Word" "HOL-Library.Sublist"
begin

section \<open>Temporary identifiers in conditional URLs (bundle processor)\<close>

text \<open>
  The bundle processor decides with the regular expression
  \<^verbatim>\<open>([=,])(urn:uuid:|urn%3Auuid%3A)[0-9a-f]{8}-[0-9a-f]{4}-[0-9a-f]{4}-[0-9a-f]{4}-[0-9a-f]{12}(&|,|$)\<close>
  whether a conditional URL still mentions a temporary id. The fragment of the regular
  expression language that this pattern uses is embedded as a datatype; \<open>rmatch r s\<close>
  lists the remainders of \<open>s\<close> after every way of matching \<open>r\<close> at the start of \<open>s\<close>,
  and \<open>MatchString\<close> searches every start position, as the unanchored search of Go's
  regexp package does.
\<close>

datatype regex =
    Chars "char list"
  | Str string
  | Seq regex regex
  | Alt regex regex
  | Rep nat regex
  | Eot

fun rsize :: "regex \<Rightarrow> nat" where
  "rsize (Chars cs) = 1"
| "rsize (Str p) = 1"
| "rsize (Seq a b) = Suc (rsize a + rsize b)"
| "rsize (Alt a b) = Suc (rsize a + rsize b)"
| "rsize (Rep n r) = Suc n * Suc (rsize r)"
| "rsize Eot = 1"

function rmatch :: "regex \<Rightarrow> string \<Rightarrow> string list" where
  "rmatch (Chars cs) s = (case s of [] \<Rightarrow> [] | c # t \<Rightarrow> if c \<in> set cs then [t] else [])"
| "rmatch (Str p) s = (if take (length p) s = p then [drop (length p) s] else [])"
| "rmatch (Seq a b) s = concat (map (rmatch b) (rmatch a s))"
| "rmatch (Alt a b) s = rmatch a s @ rmatch b s"
| "rmatch (Rep 0 r) s = [s]"
| "rmatch (Rep (Suc n) r) s = concat (map (rmatch (Rep n r)) (rmatch r s))"
| "rmatch Eot s = (if s = [] then [[]] else [])"
  by pat_completeness auto
termination
  by (relation "measure (\<lambda>(r, s). rsize r)") auto

fun MatchString :: "regex \<Rightarrow> string \<Rightarrow> bool" where
  "MatchString r [] = (rmatch r [] \<noteq> [])"
| "MatchString r (c # t) = (rmatch r (c # t) \<noteq> [] \<or> MatchString r t)"

definition hexdigit :: regex where
  "hexdigit = Chars ''0123456789abcdef''"

definition tempIdRegexp :: regex where
  "tempIdRegexp =
     Seq (Chars ''=,'')
    (Seq (Alt (Str ''urn:uuid:'') (Str ''urn%3Auuid%3A''))
    (Seq (Rep 8 hexdigit) (Seq (Str ''-'')
    (Seq (Rep 4 hexdigit) (Seq (Str ''-'')
    (Seq (Rep 4 hexdigit) (Seq (Str ''-'')
    (Seq (Rep 4 hexdigit) (Seq (Str ''-'')
    (Seq (Rep 12 hexdigit)
         (Alt (Str ''&'') (Alt (Str '','') Eot))))))))))))"

definition hasTempID :: "string \<Rightarrow> bool" where
  "hasTempID str = MatchString tempIdRegexp str"

text \<open>
  The readable description of what the pattern looks for: a lower-case hexadecimal UUID
  in the 8-4-4-4-12 layout, behind one of the two spellings of the \<open>urn:uuid:\<close> scheme,
  immediately preceded by \<open>=\<close> or \<open>,\<close> and immediately followed by \<open>&\<close>, \<open>,\<close>
  or the end of the string.
\<close>

definition hexs :: "nat \<Rightarrow> string \<Rightarrow> bool" where
  "hexs n w \<longleftrightarrow> length w = n \<and> set w \<subseteq> set ''0123456789abcdef''"

definition uuid_text :: "string \<Rightarrow> bool" where
  "uuid_text u \<longleftrightarrow>
     (\<exists>a b c d e. u = a @ ''-'' @ b @ ''-'' @ c @ ''-'' @ d @ ''-'' @ e \<and>
        hexs 8 a \<and> hexs 4 b \<and> hexs 4 c \<and> hexs 4 d \<and> hexs 12 e)"

definition tempid_sep :: "char \<Rightarrow> bool" where
  "tempid_sep c \<longleftrightarrow> c = CHR ''='' \<or> c = CHR '',''"

definition tempid_scheme :: "string \<Rightarrow> bool" where
  "tempid_scheme sch \<longleftrightarrow> sch = ''urn:uuid:'' \<or> sch = ''urn%3Auuid%3A''"

definition tempid_end :: "string \<Rightarrow> bool" where
  "tempid_end post \<longleftrightarrow>
     (case post of [] \<Rightarrow> True | x # rest \<Rightarrow> x = CHR ''&'' \<or> x = CHR '','')"

definition contains_temp_id :: "string \<Rightarrow> bool" where
  "contains_temp_id str \<longleftrightarrow>
     (\<exists>pre c sch u post. str = pre @ [c] @ sch @ u @ post \<and>
        tempid_sep c \<and> tempid_scheme sch \<and> uuid_text u \<and> tempid_end post)"

section \<open>Decimal text of Go integers (strconv)\<close>

text \<open>
  \<open>Atoi\<close> follows Go's \<^verbatim>\<open>strconv.Atoi\<close> on a 64-bit platform: an optional sign, at
  least one decimal digit and nothing else; a value outside the \<^verbatim>\<open>int64\<close> range is a
  range error that still returns the nearest bound. The result is the value together with
  the flag "no error". \<open>Itoa\<close> is \<^verbatim>\<open>strconv.Itoa\<close>.
\<close>

definition is_digit :: "char \<Rightarrow> bool" where
  "is_digit c \<longleftrightarrow> c \<in> set ''0123456789''"

definition digit_of :: "char \<Rightarrow> nat" where
  "digit_of c = of_char c - 48"

definition digit_char :: "nat \<Rightarrow> char" where
  "digit_char d = ''0123456789'' ! d"

definition nat_of_digits :: "string \<Rightarrow> nat" where
  "nat_of_digits ds = foldl (\<lambda>n c. 10 * n + digit_of c) 0 ds"

definition Atoi :: "string \<Rightarrow> int \<times> bool" where
  "Atoi s =
     (let neg = (case s of c # r \<Rightarrow> c = CHR ''-'' | [] \<Rightarrow> False);
          body = (case s of c # r \<Rightarrow> if c = CHR ''-'' \<or> c = CHR ''+'' then r else s | [] \<Rightarrow> [])
      in if body = [] \<or> \<not> list_all is_digit body then (0, False)
         else let n = int (nat_of_digits body)
              in if neg then (if n > 2 ^ 63 then (- (2 ^ 63), False) else (- n, True))
                 else (if n \<ge> 2 ^ 63 then (2 ^ 63 - 1, False) else (n, True)))"

function digits_of_nat :: "nat \<Rightarrow> string" where
  "digits_of_nat n = (if n < 10 then [digit_char n] else digits_of_nat (n div 10) @ [digit_char (n mod 10)])"
  by pat_completeness auto
termination
  by (relation "measure id") auto

declare digits_of_nat.simps [simp del]

definition Itoa :: "int \<Rightarrow> string" where
  "Itoa i = (if i < 0 then CHR ''-'' # digits_of_nat (nat (- i)) else digits_of_nat (nat i))"

text \<open>Go's \<^verbatim>\<open>int\<close> is 64 bits wide: sums wrap, and \<^verbatim>\<open>uint32(x)\<close> keeps the low 32 bits.
  The remainder operator \<^verbatim>\<open>%\<close> truncates towards zero.\<close>

definition wrap64 :: "int \<Rightarrow> int" where
  "wrap64 x = (x + 2 ^ 63) mod 2 ^ 64 - 2 ^ 63"

definition uint32 :: "int \<Rightarrow> int" where
  "uint32 x = x mod 2 ^ 32"

definition go_rem :: "int \<Rightarrow> int \<Rightarrow> int" where
  "go_rem a b = sgn a * (\<bar>a\<bar> mod \<bar>b\<bar>)"

text \<open>\<^verbatim>\<open>strings.Split(s, "/")\<close> and \<^verbatim>\<open>strings.Join\<close> for a one-character separator.\<close>

fun split_on :: "char \<Rightarrow> string \<Rightarrow> string list" where
  "split_on c [] = [[]]"
| "split_on c (x # xs) =
     (if x = c then [] # split_on c xs
      else (case split_on c xs of w # ws \<Rightarrow> (x # w) # ws | [] \<Rightarrow> [[x]]))"

fun join_with :: "string \<Rightarrow> string list \<Rightarrow> string" where
  "join_with sep [] = []"
| "join_with sep [x] = x"
| "join_with sep (x # y # ys) = x @ sep @ join_with sep (y # ys)"

section \<open>Paging links of a search bundle\<close>

text \<open>
  \<open>generatePagingLinks\<close> of the Mongo data access layer. The two raw query parameters
  \<open>_offset\<close> and \<open>_count\<close> (the empty string when absent), the answer of
  \<^verbatim>\<open>query.SupportsPaging()\<close> and the configuration flag \<open>countTotalResults\<close> are
  arguments; the total \<open>tot\<close> and \<open>numResults\<close> are \<^verbatim>\<open>uint32\<close>. A link made by \<^verbatim>\<open>newLink\<close> is
  the base URL with \<open>_offset\<close> and \<open>_count\<close> set to the two given numbers, so it is
  recorded as its relation and these two numbers.
\<close>

datatype link = Link string int int | RawSelfLink

fun relation :: "link \<Rightarrow> string" where
  "relation (Link r off cnt) = r"
| "relation RawSelfLink = ''self''"

text \<open>Modelled from the spec: the default page size \<^verbatim>\<open>search.NewQueryOptions().Count\<close> of the
  search package, which the spec gives as \<open>count=100\<close>.\<close>

definition defaultCount :: int where
  "defaultCount = 100"

definition pagingOffset :: "string \<Rightarrow> int" where
  "pagingOffset pOffset =
     (if pOffset \<noteq> [] then (let offset = fst (Atoi pOffset) in if offset < 0 then 0 else offset)
      else 0)"

definition pagingCount :: "string \<Rightarrow> int" where
  "pagingCount pCount =
     (if pCount \<noteq> [] then (let count = fst (Atoi pCount) in if count < 1 then defaultCount else count)
      else defaultCount)"

definition previousLink :: "int \<Rightarrow> int \<Rightarrow> link list" where
  "previousLink offset count =
     (if offset > 0
      then (let prevOffset = (if offset - count < 0 then 0 else offset - count);
                prevCount = offset - prevOffset
            in [Link ''previous'' prevOffset prevCount])
      else [])"

definition lastLink :: "int \<Rightarrow> int \<Rightarrow> int \<Rightarrow> link list" where
  "lastLink tot offset count =
     (let remainder = (if tot < offset then 0 else go_rem (tot - offset) count);
          newOffset = (if remainder = 0 \<and> tot > count then tot - count else tot - remainder)
      in [Link ''last'' newOffset count])"

definition generatePagingLinks ::
  "bool \<Rightarrow> bool \<Rightarrow> string \<Rightarrow> string \<Rightarrow> 32 word \<Rightarrow> 32 word \<Rightarrow> link list" where
  "generatePagingLinks countTotalResults supportsPaging pOffset pCount tot numResults =
     (let offset = pagingOffset pOffset;
          count = pagingCount pCount
      in if \<not> supportsPaging then [RawSelfLink]
         else [Link ''self'' offset count, Link ''first'' 0 count]
            @ previousLink offset count
            @ (if countTotalResults
               then (if uint tot > uint32 (offset + count)
                     then [Link ''next'' (wrap64 (offset + count)) count] else [])
                    @ lastLink (uint tot) offset count
               else (if uint numResults = count
                     then [Link ''next'' (wrap64 (offset + count)) count] else [])))"

definition has_link :: "string \<Rightarrow> link list \<Rightarrow> bool" where
  "has_link r ls \<longleftrightarrow> r \<in> set (map relation ls)"

section \<open>The canonical document codec\<close>

text \<open>
  A JSON document as the streaming parser presents it: objects are ordered lists of
  fields, a number is its token text. Strings are kept as their text; escape sequences
  are not modelled. The internal documents are BSON values as the codec builds and reads
  them: the two Go array types the codec distinguishes (\<^verbatim>\<open>[]interface{}\<close> built by the
  ingest, \<^verbatim>\<open>primitive.A\<close> decoded from the database) are separate constructors, and so
  are the two time types. Floating-point values are never computed: a float is
  represented by the text it was derived from. \<open>'t\<close> is the type of time values.
\<close>

datatype json =
    JObject "(string \<times> json) list"
  | JArray "json list"
  | JString string
  | JNumber string
  | JBoolean bool
  | JNull

datatype 't bson =
    BDoc "(string \<times> 't bson) list"
  | BArr "'t bson list"
  | BPrimA "'t bson list"
  | BStr string
  | BNull
  | BBool bool
  | BInt int
  | BFloat string
  | BTime 't
  | BDateTime 't

datatype cerr =
    ErrSchema
  | ErrResourceType
  | ErrReference
  | ErrExtension
  | ErrDate
  | ErrInstant
  | ErrNumber
  | ErrCrypto
  | ErrEgress
  | ErrTypeAssertion

text \<open>
  What the codec takes from outside this repository's sources: the generated type
  registry \<open>fhirTypes\<close> (element path to type name; \<^verbatim>\<open>init\<close> adds \<open>_.id\<close> and
  \<open>_.extension\<close> to it), the date parser of the \<open>utils\<close> package with the two bounds of a
  date's range, Go's RFC 3339 time parser and the JSON form of a time (\<^verbatim>\<open>json.Marshal\<close>
  fails on some times and floats), and the float parser of the JSON library. The range of
  a number (\<^verbatim>\<open>utils.ParseNumber\<close>) is taken to be defined for every number the parsers
  accept. The server is modelled as run without an encryption key
  (\<^verbatim>\<open>GOFHIR_ENCRYPTION_KEY_BASE64\<close> unset), so that \<^verbatim>\<open>getCipher\<close> fails.
\<close>

record 't codec_env =
  fhirTypes :: "string \<rightharpoonup> string"
  parseDate :: "string \<Rightarrow> ('t \<times> 't) option"
  parseInstant :: "string \<Rightarrow> 't option"
  marshalTime :: "'t \<Rightarrow> string option"
  getFloat :: "string \<Rightarrow> bool"
  marshalFloat :: "string \<Rightarrow> string option"

subsection \<open>Positions in the type registry\<close>

record positionInfo =
  element :: string
  needToReadResourceType :: bool
  pathHere :: string

definition atReference :: "positionInfo \<Rightarrow> bool" where
  "atReference p \<longleftrightarrow> element p = ''Reference''"

definition atExtension :: "positionInfo \<Rightarrow> bool" where
  "atExtension p \<longleftrightarrow> element p = ''Extension''"

definition atDecimal :: "positionInfo \<Rightarrow> bool" where
  "atDecimal p \<longleftrightarrow> element p = ''decimal''"

definition atDate :: "positionInfo \<Rightarrow> bool" where
  "atDate p \<longleftrightarrow> element p = ''date'' \<or> element p = ''dateTime''"

definition atInstant :: "positionInfo \<Rightarrow> bool" where
  "atInstant p \<longleftrightarrow> element p = ''instant''"

text \<open>\<^verbatim>\<open>strings.HasPrefix\<close>. (\<^verbatim>\<open>strings.Contains(s, ".")\<close> is written \<open>CHR ''.'' \<in> set s\<close>.)\<close>

definition HasPrefix :: "string \<Rightarrow> string \<Rightarrow> bool" where
  "HasPrefix s pre \<longleftrightarrow> take (length pre) s = pre"

text \<open>\<^verbatim>\<open>jsonparser.GetString(value, key)\<close>: the first field of that name, if it is a string.\<close>

definition GetString :: "json \<Rightarrow> string \<Rightarrow> string option" where
  "GetString j key =
     (case j of
        JObject members \<Rightarrow> (case map_of members key of Some (JString s) \<Rightarrow> Some s | _ \<Rightarrow> None)
      | _ \<Rightarrow> None)"

text \<open>\<open>downTo\<close> and \<open>intoArray\<close>; their panics are the error \<open>ErrSchema\<close>.\<close>

definition downTo :: "'t codec_env \<Rightarrow> positionInfo \<Rightarrow> string \<Rightarrow> json \<Rightarrow> cerr + positionInfo" where
  "downTo env p key valueJson =
     (if needToReadResourceType p then Inl ErrSchema
      else let nextPath = pathHere p @ ''.'' @ key
      in if key = ''resourceType'' \<and> CHR ''.'' \<notin> set (element p)
         then Inr \<lparr>element = ''string'', needToReadResourceType = False, pathHere = nextPath\<rparr>
         else if HasPrefix key ''_''
         then Inr \<lparr>element = ''_'', needToReadResourceType = False, pathHere = nextPath\<rparr>
         else (case fhirTypes env (element p @ ''.'' @ key) of
                 None \<Rightarrow> Inl ErrSchema
               | Some t \<Rightarrow>
                   (let nextElement = (if t \<noteq> ''BackboneElement'' \<and> t \<noteq> ''Element'' then t
                                       else element p @ ''.'' @ key)
                    in if nextElement = ''Resource''
                       then (case valueJson of
                               JArray _ \<Rightarrow>
                                 Inr \<lparr>element = nextElement, needToReadResourceType = True,
                                      pathHere = nextPath\<rparr>
                             | JObject _ \<Rightarrow>
                                 (case GetString valueJson ''resourceType'' of
                                    None \<Rightarrow> Inl ErrSchema
                                  | Some resourceType' \<Rightarrow>
                                      (case fhirTypes env (resourceType' @ ''.id'') of
                                         None \<Rightarrow> Inl ErrSchema
                                       | Some _ \<Rightarrow>
                                           Inr \<lparr>element = resourceType', needToReadResourceType = False,
                                                pathHere = nextPath @ ''('' @ resourceType' @ '')''\<rparr>))
                             | _ \<Rightarrow> Inl ErrSchema)
                       else Inr \<lparr>element = nextElement, needToReadResourceType = False,
                                 pathHere = nextPath\<rparr>)))"

definition intoArray :: "'t codec_env \<Rightarrow> positionInfo \<Rightarrow> json \<Rightarrow> cerr + positionInfo" where
  "intoArray env p valueJson =
     (let nextPath = pathHere p @ ''.[]''
      in if needToReadResourceType p
         then (case GetString valueJson ''resourceType'' of
                 None \<Rightarrow> Inl ErrSchema
               | Some resourceType' \<Rightarrow>
                   (case fhirTypes env (resourceType' @ ''.id'') of
                      None \<Rightarrow> Inl ErrSchema
                    | Some _ \<Rightarrow>
                        Inr \<lparr>element = resourceType', needToReadResourceType = False,
                             pathHere = nextPath @ ''('' @ resourceType' @ '')''\<rparr>))
         else Inr \<lparr>element = element p, needToReadResourceType = False, pathHere = nextPath\<rparr>)"

subsection \<open>Ingest: JSON to the internal document\<close>

text \<open>
  \<^verbatim>\<open>jsonparser.GetInt\<close> on a number token. In \<open>convertNumberValue\<close>, a number with a decimal
  point at a position that is not a decimal returns \<^verbatim>\<open>errors.Wrapf(err, ...)\<close> with \<open>err\<close>
  still nil, which is nil: the value becomes null and no error is reported.
\<close>

definition GetInt :: "string \<Rightarrow> int option" where
  "GetInt s = (if HasPrefix s ''+'' then None
               else (case Atoi s of (v, True) \<Rightarrow> Some v | (_, False) \<Rightarrow> None))"

definition convertNumberValue :: "'t codec_env \<Rightarrow> positionInfo \<Rightarrow> string \<Rightarrow> cerr + 't bson" where
  "convertNumberValue env pos stringForm =
     (if atDecimal pos
      then (if CHR ''.'' \<in> set stringForm
            then (if getFloat env stringForm
                  then Inr (BDoc [(''__from'', BFloat stringForm), (''__to'', BFloat stringForm),
                                  (''__num'', BFloat stringForm), (''__strNum'', BStr stringForm)])
                  else Inl ErrNumber)
            else (case GetInt stringForm of
                    None \<Rightarrow> Inl ErrNumber
                  | Some numValue \<Rightarrow>
                      Inr (BDoc [(''__from'', BFloat stringForm), (''__to'', BFloat stringForm),
                                 (''__num'', BInt numValue), (''__strNum'', BStr stringForm)])))
      else (if CHR ''.'' \<in> set stringForm then Inr BNull
            else (case GetInt stringForm of
                    None \<Rightarrow> Inl ErrNumber
                  | Some elemInt64 \<Rightarrow> Inr (BInt elemInt64))))"

definition convertDateValue :: "'t codec_env \<Rightarrow> string \<Rightarrow> cerr + 't bson" where
  "convertDateValue env stringForm =
     (case parseDate env stringForm of
        None \<Rightarrow> Inl ErrDate
      | Some (lo, hi) \<Rightarrow>
          Inr (BDoc [(''__from'', BTime lo), (''__to'', BTime hi), (''__strDate'', BStr stringForm)]))"

definition convertInstant :: "'t codec_env \<Rightarrow> string \<Rightarrow> cerr + 't bson" where
  "convertInstant env s = (case parseInstant env s of None \<Rightarrow> Inl ErrInstant | Some t \<Rightarrow> Inr (BTime t))"

text \<open>The text of a scalar JSON value as the parser hands it over (\<^verbatim>\<open>string(value)\<close>).\<close>

fun rawText :: "json \<Rightarrow> string option" where
  "rawText (JString s) = Some s"
| "rawText (JNumber s) = Some s"
| "rawText (JBoolean b) = Some (if b then ''true'' else ''false'')"
| "rawText JNull = Some ''null''"
| "rawText _ = None"

text \<open>
  The second half of \<^verbatim>\<open>addToBSONdoc\<close>, after the value has been converted: the element
  is stored (\<open>id\<close> first, as \<open>_id\<close>), and for the \<open>reference\<close> field of a Reference the
  reference is rewritten through the map of the bundle processor and the derived fields
  are appended.
\<close>

definition storeElement :: "(string \<times> 't bson) list \<Rightarrow> string \<Rightarrow> 't bson \<Rightarrow> (string \<times> 't bson) list" where
  "storeElement output strKey valueBson =
     (if strKey = ''id'' then (''_id'', valueBson) # output
      else if strKey = ''_id'' then output @ [(''__id'', valueBson)]
      else output @ [(strKey, valueBson)])"

definition referenceFields ::
  "'t codec_env \<Rightarrow> positionInfo \<Rightarrow> string \<Rightarrow> cerr + (string \<times> 't bson) list" where
  "referenceFields env pos reference =
     (let splitURL = split_on CHR ''/'' reference;
          components = length splitURL;
          external = [(''reference__external'', BBool (HasPrefix reference ''http''))]
      in if components \<ge> 2
         then (let lastComponent = splitURL ! (components - 1);
                   secondLastComponent = splitURL ! (components - 2)
               in if secondLastComponent = ''_history''
                  then (if components < 4 then Inl ErrReference
                        else (case fhirTypes env (splitURL ! (components - 4) @ ''.id'') of
                                None \<Rightarrow> Inl ErrReference
                              | Some _ \<Rightarrow>
                                  Inr ([(''reference__id'', BStr (splitURL ! (components - 3))),
                                        (''reference__type'', BStr (splitURL ! (components - 4)))]
                                       @ external)))
                  else (case fhirTypes env (secondLastComponent @ ''.id'') of
                          None \<Rightarrow> Inl ErrReference
                        | Some _ \<Rightarrow>
                            Inr ([(''reference__id'', BStr lastComponent),
                                  (''reference__type'', BStr secondLastComponent)] @ external)))
         else if HasPrefix reference ''#'' then Inr external
         else if HasPrefix reference ''urn:uuid:'' \<and> HasPrefix (pathHere pos) ''Bundle.''
         then Inr external
         else Inl ErrReference)"

definition addReference ::
  "'t codec_env \<Rightarrow> (string \<rightharpoonup> string) \<Rightarrow> (string \<times> 't bson) list \<Rightarrow> positionInfo \<Rightarrow> string \<Rightarrow> json
     \<Rightarrow> cerr + (string \<times> 't bson) list" where
  "addReference env refsMap output pos strKey value =
     (if atReference pos \<and> strKey = ''reference''
      then (case rawText value of
              None \<Rightarrow> Inl ErrReference
            | Some reference0 \<Rightarrow>
                (let (reference, output1) =
                       (case refsMap reference0 of
                          Some transformedReferenced \<Rightarrow>
                            (transformedReferenced,
                             butlast output @ [(fst (last output), BStr transformedReferenced)])
                        | None \<Rightarrow> (reference0, output))
                 in (case referenceFields env pos reference of
                       Inl e \<Rightarrow> Inl e
                     | Inr derived \<Rightarrow> Inr (output1 @ derived))))
      else Inr output)"

fun convertValue ::
    "'t codec_env \<Rightarrow> (string \<rightharpoonup> string) \<Rightarrow> positionInfo \<Rightarrow> json \<Rightarrow> cerr + 't bson"
  and addMembers ::
    "'t codec_env \<Rightarrow> (string \<rightharpoonup> string) \<Rightarrow> positionInfo \<Rightarrow> bool \<Rightarrow> (string \<times> json) list
       \<Rightarrow> (string \<times> 't bson) list \<Rightarrow> cerr + (string \<times> 't bson) list"
  and addToBSONarray ::
    "'t codec_env \<Rightarrow> (string \<rightharpoonup> string) \<Rightarrow> positionInfo \<Rightarrow> json list \<Rightarrow> cerr + 't bson list"
  and convertExtensionArray ::
    "'t codec_env \<Rightarrow> (string \<rightharpoonup> string) \<Rightarrow> positionInfo \<Rightarrow> json list \<Rightarrow> cerr + 't bson list"
where
  "convertValue env refsMap pos (JObject members) =
     (case addMembers env refsMap pos False members [] of
        Inl e \<Rightarrow> Inl e
      | Inr subDoc \<Rightarrow> Inr (BDoc subDoc))"
| "convertValue env refsMap pos (JArray elems) =
     (if atExtension pos
      then (case convertExtensionArray env refsMap pos elems of
              Inl e \<Rightarrow> Inl e
            | Inr array \<Rightarrow> Inr (BArr array))
      else (case addToBSONarray env refsMap pos elems of
              Inl e \<Rightarrow> Inl e
            | Inr array \<Rightarrow> Inr (BArr array)))"
| "convertValue env refsMap pos (JString s) =
     (if atDate pos then convertDateValue env s
      else if atInstant pos then convertInstant env s
      else Inr (BStr s))"
| "convertValue env refsMap pos JNull = Inr BNull"
| "convertValue env refsMap pos (JBoolean boo) = Inr (BBool boo)"
| "convertValue env refsMap pos (JNumber s) = convertNumberValue env pos s"
| "addMembers env refsMap pos skipUrl [] output = Inr output"
| "addMembers env refsMap pos skipUrl ((key, value) # rest) output =
     (if skipUrl \<and> key = ''url'' then addMembers env refsMap pos skipUrl rest output
      else (case downTo env pos key value of
              Inl e \<Rightarrow> Inl e
            | Inr nextPos \<Rightarrow>
                (case convertValue env refsMap nextPos value of
                   Inl e \<Rightarrow> Inl e
                 | Inr valueBson \<Rightarrow>
                     (case addReference env refsMap (storeElement output key valueBson) pos key value of
                        Inl e \<Rightarrow> Inl e
                      | Inr output' \<Rightarrow> addMembers env refsMap pos skipUrl rest output'))))"
| "addToBSONarray env refsMap pos [] = Inr []"
| "addToBSONarray env refsMap pos (value # rest) =
     (case intoArray env pos value of
        Inl e \<Rightarrow> Inl e
      | Inr nextPos \<Rightarrow>
          (case convertValue env refsMap nextPos value of
             Inl e \<Rightarrow> Inl e
           | Inr valueBson \<Rightarrow>
               (case addToBSONarray env refsMap pos rest of
                  Inl e \<Rightarrow> Inl e
                | Inr array \<Rightarrow> Inr (valueBson # array))))"
| "convertExtensionArray env refsMap pos [] = Inr []"
| "convertExtensionArray env refsMap pos (JNull # rest) =
     (case convertExtensionArray env refsMap pos rest of
        Inl e \<Rightarrow> Inl e
      | Inr array \<Rightarrow> Inr (BNull # array))"
| "convertExtensionArray env refsMap pos (JObject members # rest) =
     (case GetString (JObject members) ''url'' of
        None \<Rightarrow> Inl ErrExtension
      | Some url \<Rightarrow>
          (case addMembers env refsMap pos True members [] of
             Inl e \<Rightarrow> Inl e
           | Inr newChildExtensionObj \<Rightarrow>
               (case convertExtensionArray env refsMap pos rest of
                  Inl e \<Rightarrow> Inl e
                | Inr array \<Rightarrow> Inr (BDoc [(url, BDoc newChildExtensionObj)] # array))))"
| "convertExtensionArray env refsMap pos (_ # rest) = Inl ErrExtension"


definition encryptBSON ::
  "(string \<times> 't bson) list \<Rightarrow> string \<Rightarrow> bool \<Rightarrow> cerr + (string \<times> 't bson) list" where
  "encryptBSON bsonRoot resourceType' patientDetails =
     (if \<not> patientDetails \<or> resourceType' \<noteq> ''Patient'' then Inr bsonRoot else Inl ErrCrypto)"

definition ConvertJsonToGoFhirBSON ::
  "'t codec_env \<Rightarrow> json \<Rightarrow> bool \<Rightarrow> (string \<rightharpoonup> string) \<Rightarrow> cerr + (string \<times> 't bson) list" where
  "ConvertJsonToGoFhirBSON env jsonBytes whatToEncrypt refsMap =
     (case GetString jsonBytes ''resourceType'' of
        None \<Rightarrow> Inl ErrResourceType
      | Some resourceType' \<Rightarrow>
          (case jsonBytes of
             JObject members \<Rightarrow>
               (case addMembers env refsMap
                       \<lparr>element = resourceType', needToReadResourceType = False, pathHere = resourceType'\<rparr>
                       False members [] of
                  Inl e \<Rightarrow> Inl e
                | Inr bsonRoot \<Rightarrow> encryptBSON bsonRoot resourceType' whatToEncrypt)
           | _ \<Rightarrow> Inl ErrResourceType))"

subsection \<open>Egress: the internal document to JSON\<close>

text \<open>
  What the egress writes to its buffer, as a tree: an object records whether a separator
  was written before its first member (the loop writes \<^verbatim>\<open>", "\<close> before every member
  with \<^verbatim>\<open>i > 0\<close>, also when the members before it were skipped). \<open>TNumber\<close> and \<open>TString\<close>
  are what \<^verbatim>\<open>json.Marshal\<close> returns for a number and for a string or a time; \<open>TRaw\<close> is
  text copied to the buffer as it is.
\<close>

datatype jtext =
    TObject bool "(string \<times> jtext) list"
  | TArray "jtext list"
  | TString string
  | TNumber string
  | TRaw string
  | TBool bool
  | TNull

definition docIncluded :: "string \<Rightarrow> bool" where
  "docIncluded key \<longleftrightarrow> HasPrefix key ''_included'' \<or> HasPrefix key ''_revIncluded''"

definition skipped :: "string \<Rightarrow> bool" where
  "skipped key \<longleftrightarrow>
     key = ''reference__id'' \<or> key = ''reference__type'' \<or> key = ''reference__external''
     \<or> docIncluded key \<or> HasPrefix key ''_lookup''"

definition jsonKey :: "string \<Rightarrow> string" where
  "jsonKey bsonKey = (if bsonKey = ''_id'' then ''id'' else if bsonKey = ''__id'' then ''_id'' else bsonKey)"

definition leadingSeparator :: "(string \<times> 't bson) list \<Rightarrow> bool" where
  "leadingSeparator bsonDoc =
     (case bsonDoc of
        [] \<Rightarrow> False
      | (key, _) # rest \<Rightarrow> skipped key \<and> list_ex (\<lambda>(k, _). \<not> skipped k) rest)"

text \<open>
  The first loop of \<open>processDocument\<close>: a decimal or date document is replaced by its
  text, and so is a document of the older \<open>time\<close>/\<open>precision\<close> form.
\<close>

fun scanDocument ::
  "'t codec_env \<Rightarrow> (string \<times> 't bson) list \<Rightarrow> string option \<Rightarrow> string \<Rightarrow> bool \<Rightarrow> cerr + jtext option" where
  "scanDocument env [] oldTime oldPrecision otherFields =
     (case oldTime of
        Some t \<Rightarrow> Inr (if oldPrecision \<noteq> [] \<and> \<not> otherFields then Some (TString t) else None)
      | None \<Rightarrow> Inr None)"
| "scanDocument env ((key, v) # rest) oldTime oldPrecision otherFields =
     (if key = ''__strNum''
      then (case v of BStr val \<Rightarrow> Inr (Some (TRaw val)) | _ \<Rightarrow> Inl ErrEgress)
      else if key = ''__strDate''
      then (case v of BStr val \<Rightarrow> Inr (Some (TString val)) | _ \<Rightarrow> Inl ErrEgress)
      else if key = ''time''
      then (case v of
              BTime val \<Rightarrow>
                (case marshalTime env val of
                   None \<Rightarrow> Inl ErrEgress
                 | Some jsonStr \<Rightarrow> scanDocument env rest (Some jsonStr) oldPrecision otherFields)
            | _ \<Rightarrow> scanDocument env rest oldTime oldPrecision otherFields)
      else if key = ''precision''
      then (case v of
              BStr val \<Rightarrow> scanDocument env rest oldTime val otherFields
            | _ \<Rightarrow> scanDocument env rest oldTime oldPrecision otherFields)
      else scanDocument env rest oldTime oldPrecision True)"

fun bsize :: "'t bson \<Rightarrow> nat" where
  "bsize (BDoc d) = Suc (Suc (sum_list (map (\<lambda>(k, v). Suc (bsize v)) d)))"
| "bsize (BArr xs) = Suc (sum_list (map (\<lambda>v. Suc (bsize v)) xs))"
| "bsize (BPrimA xs) = Suc (sum_list (map (\<lambda>v. Suc (bsize v)) xs))"
| "bsize _ = 0"

function processValue :: "'t codec_env \<Rightarrow> 't bson \<Rightarrow> cerr + jtext"
  and processDocument :: "'t codec_env \<Rightarrow> (string \<times> 't bson) list \<Rightarrow> cerr + jtext"
  and processMembers :: "'t codec_env \<Rightarrow> (string \<times> 't bson) list \<Rightarrow> cerr + (string \<times> jtext) list"
  and processArray :: "'t codec_env \<Rightarrow> 't bson list \<Rightarrow> cerr + jtext list"
  and processExtensionsArray :: "'t codec_env \<Rightarrow> 't bson \<Rightarrow> cerr + jtext"
  and processExtensions :: "'t codec_env \<Rightarrow> 't bson list \<Rightarrow> cerr + jtext list"
where
  "processValue env (BInt v) = Inr (TNumber (Itoa v))"
| "processValue env (BFloat v) = (case marshalFloat env v of None \<Rightarrow> Inl ErrEgress | Some b \<Rightarrow> Inr (TNumber b))"
| "processValue env (BDateTime v) = (case marshalTime env v of None \<Rightarrow> Inl ErrEgress | Some b \<Rightarrow> Inr (TString b))"
| "processValue env (BTime v) = (case marshalTime env v of None \<Rightarrow> Inl ErrEgress | Some b \<Rightarrow> Inr (TString b))"
| "processValue env (BStr v) = Inr (TString v)"
| "processValue env (BBool v) = Inr (TBool v)"
| "processValue env (BDoc v) = processDocument env v"
| "processValue env (BArr v) = (case processArray env v of Inl e \<Rightarrow> Inl e | Inr ts \<Rightarrow> Inr (TArray ts))"
| "processValue env (BPrimA v) = (case processArray env v of Inl e \<Rightarrow> Inl e | Inr ts \<Rightarrow> Inr (TArray ts))"
| "processValue env BNull = Inr TNull"
| "processDocument env bsonDoc =
     (case scanDocument env bsonDoc None [] False of
        Inl e \<Rightarrow> Inl e
      | Inr (Some text) \<Rightarrow> Inr text
      | Inr None \<Rightarrow>
          (case processMembers env bsonDoc of
             Inl e \<Rightarrow> Inl e
           | Inr members \<Rightarrow> Inr (TObject (leadingSeparator bsonDoc) members)))"
| "processMembers env [] = Inr []"
| "processMembers env ((key, v) # rest) =
     (if skipped key then processMembers env rest
      else (case (if key = ''extension'' \<or> key = ''modifierExtension''
                  then (case processExtensionsArray env v of Inl e \<Rightarrow> Inl e | Inr t \<Rightarrow> Inr (key, t))
                  else (case processValue env v of Inl e \<Rightarrow> Inl e | Inr t \<Rightarrow> Inr (jsonKey key, t))) of
              Inl e \<Rightarrow> Inl e
            | Inr member \<Rightarrow>
                (case processMembers env rest of
                   Inl e \<Rightarrow> Inl e
                 | Inr members \<Rightarrow> Inr (member # members))))"
| "processArray env [] = Inr []"
| "processArray env (elt # rest) =
     (case processValue env elt of
        Inl e \<Rightarrow> Inl e
      | Inr t \<Rightarrow> (case processArray env rest of Inl e \<Rightarrow> Inl e | Inr ts \<Rightarrow> Inr (t # ts)))"
| "processExtensionsArray env (BArr array) =
     (case processExtensions env array of Inl e \<Rightarrow> Inl e | Inr ts \<Rightarrow> Inr (TArray ts))"
| "processExtensionsArray env (BPrimA array) =
     (case processExtensions env array of Inl e \<Rightarrow> Inl e | Inr ts \<Rightarrow> Inr (TArray ts))"
| "processExtensionsArray env BNull = Inr TNull"
| "processExtensionsArray env (BDoc v) = Inl ErrEgress"
| "processExtensionsArray env (BStr v) = Inl ErrEgress"
| "processExtensionsArray env (BBool v) = Inl ErrEgress"
| "processExtensionsArray env (BInt v) = Inl ErrEgress"
| "processExtensionsArray env (BFloat v) = Inl ErrEgress"
| "processExtensionsArray env (BTime v) = Inl ErrEgress"
| "processExtensionsArray env (BDateTime v) = Inl ErrEgress"
| "processExtensions env [] = Inr []"
| "processExtensions env (elt # rest) =
     (case elt of
        BDoc [(url, BDoc subsubdoc)] \<Rightarrow>
          (case processDocument env ((''url'', BStr url) # subsubdoc) of
             Inl e \<Rightarrow> Inl e
           | Inr t \<Rightarrow> (case processExtensions env rest of Inl e \<Rightarrow> Inl e | Inr ts \<Rightarrow> Inr (t # ts)))
      | _ \<Rightarrow> Inl ErrEgress)"
  by pat_completeness auto

termination
  by (relation "measure (\<lambda>x. case x of
          Inl (Inl (env, v)) \<Rightarrow> 2 * bsize v + 1
        | Inl (Inr (Inl (env, d))) \<Rightarrow> 2 * bsize (BDoc d)
        | Inl (Inr (Inr (env, d))) \<Rightarrow> 2 * bsize (BDoc d) - 1
        | Inr (Inl (env, xs)) \<Rightarrow> 2 * bsize (BArr xs)
        | Inr (Inr (Inl (env, v))) \<Rightarrow> 2 * bsize v + 1
        | Inr (Inr (Inr (env, xs))) \<Rightarrow> 2 * bsize (BArr xs))") auto

text \<open>
  \<open>decryptBSON\<close>: without ciphertext the document is left as it is; with ciphertext the
  cipher is asked for and, no key being configured, the conversion fails.
\<close>

fun ciphertextOf :: "(string \<times> 't bson) list \<Rightarrow> string \<Rightarrow> cerr + string" where
  "ciphertextOf [] ciphertextB64 = Inr ciphertextB64"
| "ciphertextOf ((key, v) # rest) ciphertextB64 =
     (if key = ''__gofhirEncryptedBSON''
      then (case v of BStr c \<Rightarrow> ciphertextOf rest c | _ \<Rightarrow> Inl ErrCrypto)
      else if key = ''__gofhirEncryptionKeyId''
      then (case v of BStr _ \<Rightarrow> ciphertextOf rest ciphertextB64 | _ \<Rightarrow> Inl ErrCrypto)
      else ciphertextOf rest ciphertextB64)"

definition decryptBSON :: "(string \<times> 't bson) list \<Rightarrow> cerr + (string \<times> 't bson) list" where
  "decryptBSON bsonRoot =
     (case ciphertextOf bsonRoot [] of
        Inl e \<Rightarrow> Inl e
      | Inr ciphertextB64 \<Rightarrow> if ciphertextB64 = [] then Inr bsonRoot else Inl ErrCrypto)"

text \<open>
  \<open>ConvertGoFhirBSONToJSON\<close> returns the document and the documents included by a search.
  An included document that has included documents of its own makes
  \<open>processIncludedDocuments\<close> return \<^verbatim>\<open>errors.Wrapf(err, ...)\<close> with \<open>err\<close> nil, that is no
  included documents and no error (\<open>None\<close> in the two loops below).
\<close>

function ConvertGoFhirBSONToJSON :: "'t codec_env \<Rightarrow> (string \<times> 't bson) list \<Rightarrow> cerr + jtext \<times> jtext list"
  and includedOfDocument :: "'t codec_env \<Rightarrow> (string \<times> 't bson) list \<Rightarrow> cerr + jtext list option"
  and includedOfArray :: "'t codec_env \<Rightarrow> 't bson list \<Rightarrow> cerr + jtext list option"
where
  "ConvertGoFhirBSONToJSON env bsonDoc =
     (case decryptBSON bsonDoc of
        Inl e \<Rightarrow> Inl e
      | Inr _ \<Rightarrow>
          (case includedOfDocument env bsonDoc of
             Inl e \<Rightarrow> Inl e
           | Inr included \<Rightarrow>
               (case processDocument env bsonDoc of
                  Inl e \<Rightarrow> Inl e
                | Inr jsonBytes \<Rightarrow>
                    Inr (jsonBytes, case included of None \<Rightarrow> [] | Some includedDocsJsons \<Rightarrow> includedDocsJsons))))"
| "includedOfDocument env [] = Inr (Some [])"
| "includedOfDocument env ((key, v) # rest) =
     (if docIncluded key
      then (case v of
              BPrimA arr \<Rightarrow>
                (case includedOfArray env arr of
                   Inl e \<Rightarrow> Inl e
                 | Inr None \<Rightarrow> Inr None
                 | Inr (Some js) \<Rightarrow>
                     (case includedOfDocument env rest of
                        Inl e \<Rightarrow> Inl e
                      | Inr None \<Rightarrow> Inr None
                      | Inr (Some js2) \<Rightarrow> Inr (Some (js @ js2))))
            | _ \<Rightarrow> Inl ErrTypeAssertion)
      else includedOfDocument env rest)"
| "includedOfArray env [] = Inr (Some [])"
| "includedOfArray env (elt # rest) =
     (case ConvertGoFhirBSONToJSON env (case elt of BDoc includedDoc \<Rightarrow> includedDoc | _ \<Rightarrow> []) of
        Inl e \<Rightarrow> Inl e
      | Inr (jsonBytes, nestedIncluded) \<Rightarrow>
          (if nestedIncluded \<noteq> [] then Inr None
           else (case includedOfArray env rest of
                   Inl e \<Rightarrow> Inl e
                 | Inr None \<Rightarrow> Inr None
                 | Inr (Some js) \<Rightarrow> Inr (Some (jsonBytes # js)))))"
  by pat_completeness auto

termination
  by (relation "measure (\<lambda>x. case x of
          Inl (env, d) \<Rightarrow> 2 * bsize (BDoc d)
        | Inr (Inl (env, d)) \<Rightarrow> 2 * bsize (BDoc d) - 1
        | Inr (Inr (env, xs)) \<Rightarrow> 2 * bsize (BArr xs) + 3)") (auto split: bson.splits)

definition processIncludedDocuments :: "'t codec_env \<Rightarrow> (string \<times> 't bson) list \<Rightarrow> cerr + jtext list" where
  "processIncludedDocuments env bsonDoc =
     (case includedOfDocument env bsonDoc of
        Inl e \<Rightarrow> Inl e
      | Inr None \<Rightarrow> Inr []
      | Inr (Some includedDocsJsons) \<Rightarrow> Inr includedDocsJsons)"

section \<open>The storage engine (Mongo data access layer)\<close>

text \<open>
  A resource envelope carries the four derived fields and its JSON text, which the
  storage operations never look into. A document of a current-version collection is
  stored under its \<open>_id\<close>; \<open>meta.versionId\<close> may be absent in documents that were not
  written by a versioning server. The previous-version collection is keyed
  vermongo-style by \<open>{_id, _version}\<close>, a deletion record carrying \<open>_deleted\<close> as well;
  it is kept as an association list in insertion order. Every resource type has its
  own pair of collections.

  Database and network failures are not part of the model, and neither are the
  interceptor hooks, which only observe resources.
\<close>

datatype error =
    ErrNotFound
  | ErrDeleted
  | ErrConflict
  | ErrMultipleMatches
  | ErrInvalidId
  | ErrDuplicateKey
  | ErrIfMatchWithoutHistory
  | ErrPanic

record resource =
  resourceType :: string
  rId :: string
  rVersionId :: string
  rLastUpdated :: string
  jsonBody :: string

record stored =
  docResourceType :: string
  docVersionId :: "string option"
  docLastUpdated :: "string option"
  docBody :: string

record prev_key =
  key_id :: string
  key_version :: int
  key_deleted :: bool

datatype prev_doc = Archived stored | DeletionRecord string string

record store =
  current :: "string \<Rightarrow> string \<rightharpoonup> stored"
  previous :: "string \<Rightarrow> (prev_key \<times> prev_doc) list"

text \<open>\<^verbatim>\<open>convertIDToBsonID\<close>: an id is accepted when it is the hexadecimal text of a 12-byte
  ObjectId, in either case; \<^verbatim>\<open>bsonID.Hex()\<close> is its lower-case form.\<close>

definition is_hex_char :: "char \<Rightarrow> bool" where
  "is_hex_char c \<longleftrightarrow> c \<in> set ''0123456789abcdefABCDEF''"

definition lower_hex :: "char \<Rightarrow> char" where
  "lower_hex c = (if c \<in> set ''ABCDEF'' then char_of (of_char c + (32::nat)) else c)"

definition convertIDToBsonID :: "string \<Rightarrow> string option" where
  "convertIDToBsonID ident =
     (if length ident = 24 \<and> list_all is_hex_char ident then Some (map lower_hex ident) else None)"

text \<open>\<^verbatim>\<open>int32(x)\<close> keeps the low 32 bits as a signed number.\<close>

definition int32 :: "int \<Rightarrow> int" where
  "int32 x = (x + 2 ^ 31) mod 2 ^ 32 - 2 ^ 31"

text \<open>\<^verbatim>\<open>Resource.GetBSON\<close>, after \<^verbatim>\<open>SetId\<close> and \<^verbatim>\<open>updateResourceMeta\<close> (which every write
  calls first, so that version and time stamp are always written), and
  \<^verbatim>\<open>NewResourceFromBSON\<close> in the other direction.\<close>

definition GetBSON :: "resource \<Rightarrow> stored" where
  "GetBSON r = \<lparr>docResourceType = resourceType r, docVersionId = Some (rVersionId r),
                docLastUpdated = Some (rLastUpdated r), docBody = jsonBody r\<rparr>"

definition NewResourceFromBSON :: "string \<Rightarrow> stored \<Rightarrow> resource" where
  "NewResourceFromBSON ident d =
     \<lparr>resourceType = docResourceType d, rId = ident,
      rVersionId = (case docVersionId d of None \<Rightarrow> [] | Some v \<Rightarrow> v),
      rLastUpdated = (case docLastUpdated d of None \<Rightarrow> [] | Some t \<Rightarrow> t),
      jsonBody = docBody d\<rparr>"

definition updateResourceMeta :: "string \<Rightarrow> resource \<Rightarrow> int \<Rightarrow> resource" where
  "updateResourceMeta now r versionId = r\<lparr>rLastUpdated := now, rVersionId := Itoa versionId\<rparr>"

text \<open>\<^verbatim>\<open>getVersionIdFromResource\<close>: whether the document has a version, the version as a
  number and as text. It panics on a version that is not the text of an integer.\<close>

definition getVersionIdFromResource :: "stored \<Rightarrow> error + (bool \<times> int \<times> string)" where
  "getVersionIdFromResource d =
     (case docVersionId d of
        None \<Rightarrow> Inr (False, - 1, [])
      | Some versionIdStr \<Rightarrow>
          (case Atoi versionIdStr of
             (versionIdInt, True) \<Rightarrow> Inr (True, versionIdInt, versionIdStr)
           | (_, False) \<Rightarrow> Inl ErrPanic))"

text \<open>The version of a stored document as text (empty when absent) and as the number the
  update and delete paths work with (\<open>0\<close> when absent).\<close>

definition versionText :: "stored \<Rightarrow> string" where
  "versionText d = (case docVersionId d of None \<Rightarrow> [] | Some v \<Rightarrow> v)"

definition versionNumber :: "stored \<Rightarrow> int" where
  "versionNumber d = (case docVersionId d of None \<Rightarrow> 0 | Some v \<Rightarrow> fst (Atoi v))"

subsection \<open>Collection primitives\<close>

fun upsert :: "'k \<Rightarrow> 'v \<Rightarrow> ('k \<times> 'v) list \<Rightarrow> ('k \<times> 'v) list" where
  "upsert k v [] = [(k, v)]"
| "upsert k v ((k', v') # kvs) = (if k' = k then (k, v) # kvs else (k', v') # upsert k v kvs)"

definition archive :: "string \<Rightarrow> prev_key \<Rightarrow> prev_doc \<Rightarrow> store \<Rightarrow> store" where
  "archive rt k d st = st\<lparr>previous := (previous st)(rt := upsert k d (previous st rt))\<rparr>"

definition setCurrent :: "string \<Rightarrow> string \<Rightarrow> stored option \<Rightarrow> store \<Rightarrow> store" where
  "setCurrent rt ident d st = st\<lparr>current := (current st)(rt := (current st rt)(ident := d))\<rparr>"

text \<open>The selector of the final replace: \<open>meta.versionId\<close> equal to the decimal text of the
  observed version, or absent when the observed version is 0.\<close>

definition selectorMatches :: "int \<Rightarrow> stored \<Rightarrow> bool" where
  "selectorMatches curVersionId d =
     (if curVersionId = 0 then docVersionId d = None
      else docVersionId d = Some (Itoa curVersionId))"

definition modifiedCount :: "stored option \<Rightarrow> stored \<Rightarrow> nat" where
  "modifiedCount old new = (case old of None \<Rightarrow> 0 | Some d \<Rightarrow> if d = new then 0 else 1)"

subsection \<open>Create\<close>

definition PostWithID :: "string \<Rightarrow> store \<Rightarrow> string \<Rightarrow> resource \<Rightarrow> (error + resource) \<times> store" where
  "PostWithID now st ident res =
     (case convertIDToBsonID ident of
        None \<Rightarrow> (Inl ErrInvalidId, st)
      | Some hex \<Rightarrow>
          (let res' = updateResourceMeta now (res\<lparr>rId := hex\<rparr>) 1;
               rt = resourceType res'
           in case current st rt hex of
                Some _ \<Rightarrow> (Inl ErrDuplicateKey, st)
              | None \<Rightarrow> (Inr res', setCurrent rt hex (Some (GetBSON res')) st)))"

subsection \<open>Update\<close>

text \<open>
  \<open>PutWith env\<close> is \<^verbatim>\<open>Put\<close> with the writes of other sessions made explicit: \<open>env\<close> is
  applied to the database between the archival of the observed document and the final
  replace, the only window the optimistic check guards. \<open>Put\<close> itself runs undisturbed.
  The result is the error or \<open>createdNew\<close> with the updated envelope, and the database.
\<close>

definition PutWith ::
  "(store \<Rightarrow> store) \<Rightarrow> bool \<Rightarrow> string \<Rightarrow> store \<Rightarrow> string \<Rightarrow> string \<Rightarrow> resource
     \<Rightarrow> (error + bool \<times> resource) \<times> store" where
  "PutWith env enableHistory now st ident conditionalVersionId res0 =
     (case convertIDToBsonID ident of
        None \<Rightarrow> (Inl ErrInvalidId, st)
      | Some hex \<Rightarrow>
          (let rt = resourceType res0;
               res = res0\<lparr>rId := hex\<rparr>;
               observed =
                 (if \<not> enableHistory
                  then (if conditionalVersionId \<noteq> [] then Inl ErrIfMatchWithoutHistory
                        else Inr (None, 1, st))
                  else (case current st rt hex of
                          None \<Rightarrow>
                            (if conditionalVersionId \<noteq> [] then Inl ErrConflict
                             else Inr (None, 1, st))
                        | Some currentDoc \<Rightarrow>
                            (case getVersionIdFromResource currentDoc of
                               Inl e \<Rightarrow> Inl e
                             | Inr (hasVersionId, curVersionIdTemp, curVersionIdStr) \<Rightarrow>
                                 (let newVersionId = (if hasVersionId then wrap64 (curVersionIdTemp + 1) else 1);
                                      curVersionId = (if hasVersionId then curVersionIdTemp else 0)
                                  in if conditionalVersionId \<noteq> [] \<and> conditionalVersionId \<noteq> curVersionIdStr
                                     then Inl ErrConflict
                                     else Inr (Some curVersionId, newVersionId,
                                            archive rt \<lparr>key_id = hex, key_version = int32 curVersionId,
                                                        key_deleted = False\<rparr>
                                              (Archived currentDoc) st)))))
           in case observed of
                Inl e \<Rightarrow> (Inl e, st)
              | Inr (curVersionId, newVersionId, st1) \<Rightarrow>
                  (let res' = updateResourceMeta now res newVersionId;
                       st2 = env st1;
                       old = current st2 rt hex
                   in case curVersionId of
                        None \<Rightarrow>
                          (let updated = modifiedCount old (GetBSON res')
                           in (Inr (updated = 0, res'), setCurrent rt hex (Some (GetBSON res')) st2))
                      | Some cv \<Rightarrow>
                          (case old of
                             None \<Rightarrow> (Inl ErrConflict, st2)
                           | Some d \<Rightarrow>
                               if selectorMatches cv d \<and> modifiedCount old (GetBSON res') \<noteq> 0
                               then (Inr (False, res'), setCurrent rt hex (Some (GetBSON res')) st2)
                               else (Inl ErrConflict, st2)))))"

definition Put ::
  "bool \<Rightarrow> string \<Rightarrow> store \<Rightarrow> string \<Rightarrow> string \<Rightarrow> resource \<Rightarrow> (error + bool \<times> resource) \<times> store" where
  "Put = PutWith (\<lambda>st. st)"

subsection \<open>Delete\<close>

definition saveDeletionIntoHistory :: "string \<Rightarrow> store \<Rightarrow> string \<Rightarrow> string \<Rightarrow> (error + string) \<times> store" where
  "saveDeletionIntoHistory now st rt ident =
     (case current st rt ident of
        None \<Rightarrow> (Inl ErrNotFound, st)
      | Some currentDoc \<Rightarrow>
          (case getVersionIdFromResource currentDoc of
             Inl e \<Rightarrow> (Inl e, st)
           | Inr (hasVersionId, curVersionIdTemp, _) \<Rightarrow>
               (let newVersionId = (if hasVersionId then wrap64 (curVersionIdTemp + 1) else 1);
                    curVersionId = (if hasVersionId then curVersionIdTemp else 0);
                    newVersionIdStr = Itoa newVersionId;
                    st1 = archive rt \<lparr>key_id = ident, key_version = int32 curVersionId,
                                      key_deleted = False\<rparr> (Archived currentDoc) st;
                    st2 = archive rt \<lparr>key_id = ident, key_version = int32 newVersionId,
                                      key_deleted = True\<rparr> (DeletionRecord newVersionIdStr now) st1
                in (Inr newVersionIdStr, st2))))"

text \<open>\<open>Delete\<close> returns the new version text (empty without history) next to the error,
  as the two named results of the source do.\<close>

definition Delete :: "bool \<Rightarrow> string \<Rightarrow> store \<Rightarrow> string \<Rightarrow> string \<Rightarrow> (string \<times> error option) \<times> store" where
  "Delete enableHistory now st ident rt =
     (case convertIDToBsonID ident of
        None \<Rightarrow> (([], Some ErrNotFound), st)
      | Some hex \<Rightarrow>
          (case (if enableHistory then saveDeletionIntoHistory now st rt hex else (Inr [], st)) of
             (Inl e, st1) \<Rightarrow> (([], Some e), st1)
           | (Inr newVersionId, st1) \<Rightarrow>
               (case current st1 rt hex of
                  None \<Rightarrow> ((newVersionId, Some ErrNotFound), st1)
                | Some _ \<Rightarrow> ((newVersionId, None), setCurrent rt hex None st1))))"

subsection \<open>Read\<close>

definition Get :: "bool \<Rightarrow> store \<Rightarrow> string \<Rightarrow> string \<Rightarrow> error + resource" where
  "Get enableHistory st ident rt =
     (case convertIDToBsonID ident of
        None \<Rightarrow> Inl ErrNotFound
      | Some hex \<Rightarrow>
          (case current st rt hex of
             Some d \<Rightarrow> Inr (NewResourceFromBSON hex d)
           | None \<Rightarrow>
               if enableHistory \<and> list_ex (\<lambda>(k, _). key_id k = hex \<and> key_deleted k) (previous st rt)
               then Inl ErrDeleted else Inl ErrNotFound))"

subsection \<open>Conditional create\<close>


subsection \<open>History\<close>

record request =
  reqMethod :: string
  reqUrl :: string
  ifNoneExist :: string
  ifMatch :: string

record response =
  rspStatus :: string
  rspLocation :: string
  rspEtag :: string
  rspLastModified :: string
  rspOutcome :: "string option"

record entry =
  fullUrl :: string
  eResource :: "resource option"
  eRequest :: "request option"
  eResponse :: "response option"







definition asPost :: "string \<Rightarrow> entry \<Rightarrow> entry" where
  "asPost rt e =
     e\<lparr>eRequest := map_option (\<lambda>r. r\<lparr>reqMethod := ''POST'', reqUrl := rt\<rparr>) (eRequest e)\<rparr>"



text \<open>What the history claim speaks about: an entry that stands for a deletion, the request
  method of an entry, and the versions behind the entries of a history, in entry order:
  the current document's version first, then the archive versions of the records.\<close>

definition entryMethod :: "entry \<Rightarrow> string option" where
  "entryMethod e = map_option reqMethod (eRequest e)"



section \<open>The bundle processor: creates and the provenance header\<close>

text \<open>
  Failure responses of the bundle processor, named after the helper that builds them.
\<close>

datatype failure =
    BadStructure
  | BadValue
  | BrokenInvariant
  | MultipleMatchesFailure
  | NotFoundFailure
  | InternalError

text \<open>\<^verbatim>\<open>Config.responseURL\<close>: the server's base address (scheme, host and database prefix,
  here the argument \<open>base\<close>) followed by the path components.\<close>

definition responseURL :: "string \<Rightarrow> string list \<Rightarrow> string" where
  "responseURL base paths = base @ ''/'' @ join_with ''/'' paths"


definition updateEntryMeta :: "resource \<Rightarrow> response \<Rightarrow> response" where
  "updateEntryMeta r rsp =
     (let rsp1 = (if rLastUpdated r \<noteq> [] then rsp\<lparr>rspLastModified := rLastUpdated r\<rparr> else rsp)
      in if rVersionId r \<noteq> [] then rsp1\<lparr>rspEtag := ''W/'' @ [CHR 0x22] @ rVersionId r @ [CHR 0x22]\<rparr>
         else rsp1)"

text \<open>The POST case of \<^verbatim>\<open>doRequestInner\<close> for an entry that has no response yet.\<close>

definition doRequestInner_POST ::
  "bool \<Rightarrow> string \<Rightarrow> store \<Rightarrow> string \<Rightarrow> string \<Rightarrow> entry \<Rightarrow> request
     \<Rightarrow> (error option \<times> entry) \<times> store" where
  "doRequestInner_POST enableHistory now st createStatus newID e rq =
     (let rsp = \<lparr>rspStatus = createStatus, rspLocation = fullUrl e, rspEtag = [],
                 rspLastModified = [], rspOutcome = None\<rparr>;
          e1 = e\<lparr>eResponse := Some rsp\<rparr>
      in if createStatus = ''201''
         then (case eResource e of
                 None \<Rightarrow> ((Some ErrPanic, e1), st)
               | Some res \<Rightarrow>
                   (case PostWithID now st newID res of
                      (Inl err, st') \<Rightarrow> ((Some err, e1), st')
                    | (Inr res', st') \<Rightarrow>
                        ((None, e1\<lparr>eResource := Some res', eResponse := Some (updateEntryMeta res' rsp),
                                  eRequest := None\<rparr>), st')))
         else if createStatus = ''200''
         then (let existingId = last (split_on CHR ''/'' (fullUrl e))
               in case Get enableHistory st existingId (reqUrl rq) of
                    Inl err \<Rightarrow> ((Some err, e1), st)
                  | Inr existingResource \<Rightarrow>
                      ((None, e1\<lparr>eResource := Some existingResource,
                                eResponse := Some (updateEntryMeta existingResource rsp),
                                eRequest := None\<rparr>), st))
         else if createStatus = ''412''
         then ((None, e1\<lparr>eResponse := Some (rsp\<lparr>rspOutcome := Some ''duplicate''\<rparr>),
                        eResource := None, eRequest := None\<rparr>), st)
         else ((None, e1\<lparr>eRequest := None\<rparr>), st))"

text \<open>The gate on the bundle type at the start of \<^verbatim>\<open>postInner\<close>.\<close>

definition bundleTypeGate :: "string \<Rightarrow> string \<Rightarrow> failure option" where
  "bundleTypeGate bundleType provenanceHeader =
     (if bundleType = ''transaction'' then None
      else if bundleType = ''batch''
      then (if provenanceHeader \<noteq> [] then Some BrokenInvariant else None)
      else Some BadValue)"

subsection \<open>X-Provenance\<close>

text \<open>
  \<^verbatim>\<open>processProvenanceHeader\<close> reads the header with the JSON parser library; the
  lookup \<^verbatim>\<open>jsonparser.Get(header, key)\<close> is an argument and answers with value text, value
  type and error flag. \<^verbatim>\<open>NewResourceFromJsonBytes\<close> on the completed header text is an
  argument too, and \<open>newId\<close> is the fresh ObjectId of the stored Provenance.
  The result is the failure response (if any), the value of the response header
  \<open>X-GoFHIR-Provenance-Location\<close> (if set) and the database.
\<close>

datatype jtype = NotExist | VString | VNumber | VObject | VArray | VBoolean | VNull | VUnknown

record jget =
  gValue :: string
  gType :: jtype
  gErr :: bool

definition provenanceTarget :: "bool \<Rightarrow> resource \<Rightarrow> failure + string" where
  "provenanceTarget enableHistory r =
     (if resourceType r = [] then Inl InternalError
      else if rId r = [] then Inl InternalError
      else if enableHistory \<and> rVersionId r = [] then Inl InternalError
      else Inr (resourceType r @ ''/'' @ rId r
                @ (if enableHistory then ''/_history/'' @ rVersionId r else [])))"

fun provenanceTargets :: "bool \<Rightarrow> entry list \<Rightarrow> failure + string list" where
  "provenanceTargets enableHistory [] = Inr []"
| "provenanceTargets enableHistory (e # es) =
     (case eResource e of
        None \<Rightarrow> provenanceTargets enableHistory es
      | Some r \<Rightarrow>
          (case provenanceTarget enableHistory r of
             Inl f \<Rightarrow> Inl f
           | Inr t \<Rightarrow>
               (case provenanceTargets enableHistory es of
                  Inl f \<Rightarrow> Inl f
                | Inr ts \<Rightarrow> Inr (t # ts))))"

text \<open>The reference text of one target, and the resources a list of entries carries.\<close>

definition targetReference :: "bool \<Rightarrow> resource \<Rightarrow> string" where
  "targetReference enableHistory r =
     resourceType r @ ''/'' @ rId r @ (if enableHistory then ''/_history/'' @ rVersionId r else [])"

definition carriedResources :: "entry list \<Rightarrow> resource list" where
  "carriedResources entries = List.map_filter eResource entries"

definition targetJson :: "string list \<Rightarrow> string" where
  "targetJson ts =
     join_with '', '' (map (\<lambda>t. ''{ '' @ [CHR 0x22] @ ''reference'' @ [CHR 0x22] @ '': '' @ [CHR 0x22] @ t @ [CHR 0x22] @ '' }'') ts)"

definition processProvenanceHeader ::
  "(string \<Rightarrow> string \<Rightarrow> jget) \<Rightarrow> (string \<Rightarrow> resource option) \<Rightarrow> bool \<Rightarrow> string \<Rightarrow> string
     \<Rightarrow> string \<Rightarrow> entry list \<Rightarrow> store \<Rightarrow> (failure option \<times> string option) \<times> store" where
  "processProvenanceHeader jsonGet newResourceFromJsonBytes enableHistory now newId
       provenanceHeader entries st =
     (if provenanceHeader = [] then ((None, None), st)
      else if gErr (jsonGet provenanceHeader ''resourceType'') then ((Some BadValue, None), st)
      else if gValue (jsonGet provenanceHeader ''resourceType'') \<noteq> ''Provenance''
      then ((Some BadValue, None), st)
      else if gType (jsonGet provenanceHeader ''target'') \<noteq> NotExist then ((Some BadValue, None), st)
      else if last provenanceHeader \<noteq> CHR ''}'' then ((Some BadValue, None), st)
      else (case provenanceTargets enableHistory entries of
              Inl f \<Rightarrow> ((Some f, None), st)
            | Inr ts \<Rightarrow>
                (case newResourceFromJsonBytes
                        (butlast provenanceHeader @ '', '' @ [CHR 0x22] @ ''target'' @ [CHR 0x22]
                           @ '': ['' @ targetJson ts @ ''] }'') of
                   None \<Rightarrow> ((Some BadValue, None), st)
                 | Some provenanceResource \<Rightarrow>
                     (case PostWithID now st newId provenanceResource of
                        (Inl err, st') \<Rightarrow> ((Some InternalError, None), st')
                      | (Inr _, st') \<Rightarrow> ((None, Some (''Provenance/'' @ newId)), st')))))"

subsection \<open>Sequences of writes to one id\<close>

text \<open>
  The writes of the REST interface to one resource id: create with the given id, update
  without \<open>If-Match\<close>, delete. \<open>applyOp\<close> gives the version text the operation assigned.
  \<open>assignedVersions\<close> runs a list of operations, all of which must be accepted, and
  collects the assigned versions in order.
\<close>

datatype op = OpCreate resource | OpUpdate resource | OpDelete

definition applyOp :: "bool \<Rightarrow> string \<Rightarrow> string \<Rightarrow> string \<Rightarrow> op \<Rightarrow> store \<Rightarrow> (error + string) \<times> store" where
  "applyOp enableHistory now ident rt operation st =
     (case operation of
        OpCreate res \<Rightarrow>
          (case PostWithID now st ident res of
             (Inl e, st') \<Rightarrow> (Inl e, st')
           | (Inr res', st') \<Rightarrow> (Inr (rVersionId res'), st'))
      | OpUpdate res \<Rightarrow>
          (case Put enableHistory now st ident [] res of
             (Inl e, st') \<Rightarrow> (Inl e, st')
           | (Inr (createdNew, res'), st') \<Rightarrow> (Inr (rVersionId res'), st'))
      | OpDelete \<Rightarrow>
          (case Delete enableHistory now st ident rt of
             ((newVersionId, Some e), st') \<Rightarrow> (Inl e, st')
           | ((newVersionId, None), st') \<Rightarrow> (Inr newVersionId, st')))"

fun assignedVersions ::
  "bool \<Rightarrow> string \<Rightarrow> string \<Rightarrow> string \<Rightarrow> store \<Rightarrow> op list \<Rightarrow> string list option" where
  "assignedVersions enableHistory now ident rt st [] = Some []"
| "assignedVersions enableHistory now ident rt st (operation # ops) =
     (case applyOp enableHistory now ident rt operation st of
        (Inl e, st') \<Rightarrow> None
      | (Inr v, st') \<Rightarrow> map_option ((#) v) (assignedVersions enableHistory now ident rt st' ops))"


subsection \<open>A small database for examples\<close>

definition emptyStore :: store where
  "emptyStore = \<lparr>current = (\<lambda>rt. Map.empty), previous = (\<lambda>rt. [])\<rparr>"

definition exampleId :: string where
  "exampleId = ''5d1f0a2b3c4d5e6f7a8b9c0d''"

definition examplePatient :: resource where
  "examplePatient = \<lparr>resourceType = ''Patient'', rId = [], rVersionId = [], rLastUpdated = [],
                       jsonBody = ''{}''\<rparr>"

definition exampleDoc :: "string \<Rightarrow> stored" where
  "exampleDoc v = \<lparr>docResourceType = ''Patient'', docVersionId = Some v,
                    docLastUpdated = Some ''2019-07-05T10:00:00Z'', docBody = ''{}''\<rparr>"

definition storeWith :: "stored \<Rightarrow> store" where
  "storeWith d = setCurrent ''Patient'' exampleId (Some d) emptyStore"

definition exampleNewId :: string where
  "exampleNewId = ''5d1f0a2b3c4d5e6f7a8b9c0e''"

definition exampleRequest :: request where
  "exampleRequest = \<lparr>reqMethod = ''POST'', reqUrl = ''Patient'',
                       ifNoneExist = ''identifier=urn:oid:0.1.2.3.4.5.6.7|123'', ifMatch = []\<rparr>"

definition exampleEntry :: entry where
  "exampleEntry = \<lparr>fullUrl = ''urn:uuid:6002c2ab-9571-4db7-9a79-87163475b071'',
                     eResource = Some examplePatient, eRequest = Some exampleRequest,
                     eResponse = None\<rparr>"

definition exampleHeader :: string where
  "exampleHeader = ''{'' @ [CHR 0x22] @ ''resourceType'' @ [CHR 0x22] @ '':'' @ [CHR 0x22]
                    @ ''Provenance'' @ [CHR 0x22] @ ''}''"

definition exampleJsonGet :: "string \<Rightarrow> string \<Rightarrow> jget" where
  "exampleJsonGet header key =
     (if header = exampleHeader \<and> key = ''resourceType''
      then \<lparr>gValue = ''Provenance'', gType = VString, gErr = False\<rparr>
      else \<lparr>gValue = [], gType = NotExist, gErr = True\<rparr>)"

definition exampleNewResource :: "string \<Rightarrow> resource option" where
  "exampleNewResource text =
     Some \<lparr>resourceType = ''Provenance'', rId = [], rVersionId = [], rLastUpdated = [],
           jsonBody = text\<rparr>"

definition exampleBase :: string where
  "exampleBase = ''http://fhir.example.com''"

definition exampleNow :: string where
  "exampleNow = ''2019-07-05T10:00:00Z''"



text \<open>The entry of a conditional create that matched \<open>exampleId\<close>, after its execution.\<close>

definition readEntry :: entry where
  "readEntry = snd (fst (doRequestInner_POST True exampleNow (storeWith (exampleDoc ''1'')) ''200'' []
          (exampleEntry\<lparr>fullUrl := responseURL exampleBase [''Patient'', exampleId]\<rparr>)
          exampleRequest))"

subsection \<open>What a response shows\<close>

text \<open>
  The member names of an emitted text, at any depth, and the texts that were copied in
  as they are. The fields the storage layer keeps for its indexes and joins are the
  three derived fields of a reference and every key that starts with \<open>_included\<close>,
  \<open>_revIncluded\<close> or \<open>_lookup\<close>. A number token is made of digits, signs, a point and an
  exponent mark; \<open>decimalTexts\<close> holds of a stored value in which every string
  stored under \<open>__strNum\<close> is one.
\<close>


fun keysOf :: "jtext \<Rightarrow> string list"
  and keysOfMembers :: "(string \<times> jtext) list \<Rightarrow> string list"
  and keysOfElements :: "jtext list \<Rightarrow> string list"
where
  "keysOf (TObject _ members) = keysOfMembers members"
| "keysOf (TArray elems) = keysOfElements elems"
| "keysOf _ = []"
| "keysOfMembers [] = []"
| "keysOfMembers ((key, t) # rest) = key # keysOf t @ keysOfMembers rest"
| "keysOfElements [] = []"
| "keysOfElements (t # rest) = keysOf t @ keysOfElements rest"

fun rawsOf :: "jtext \<Rightarrow> string list"
  and rawsOfMembers :: "(string \<times> jtext) list \<Rightarrow> string list"
  and rawsOfElements :: "jtext list \<Rightarrow> string list"
where
  "rawsOf (TObject _ members) = rawsOfMembers members"
| "rawsOf (TArray elems) = rawsOfElements elems"
| "rawsOf (TRaw s) = [s]"
| "rawsOf _ = []"
| "rawsOfMembers [] = []"
| "rawsOfMembers ((key, t) # rest) = rawsOf t @ rawsOfMembers rest"
| "rawsOfElements [] = []"
| "rawsOfElements (t # rest) = rawsOf t @ rawsOfElements rest"

definition numberToken :: "string \<Rightarrow> bool" where
  "numberToken s \<longleftrightarrow> s \<noteq> [] \<and> list_all (\<lambda>c. c \<in> set ''0123456789+-.eE'') s"



definition internalKey :: "string \<Rightarrow> bool" where
  "internalKey key \<longleftrightarrow>
     key \<in> {''reference__id'', ''reference__type'', ''reference__external''}
     \<or> prefix ''_included'' key \<or> prefix ''_revIncluded'' key \<or> prefix ''_lookup'' key"

definition clean :: "jtext \<Rightarrow> bool" where
  "clean t \<longleftrightarrow> (\<forall>k \<in> set (keysOf t). \<not> internalKey k) \<and> (\<forall>s \<in> set (rawsOf t). numberToken s)"

subsection \<open>Reading a response back\<close>

text \<open>
  The document a client reads from an emitted text (\<open>readBack\<close>; the text is JSON when no
  object has a separator before its first member), and equality of documents as JSON
  has it: objects are equal when they have the same members in any order, integers when
  they have the same value, every other number when it has the same text.

  \<open>plainResource\<close> describes the documents whose conversion has no special cases, following
  the positions of the ingest: no member is named like a field the storage layer keeps for
  itself, a member \<open>extension\<close> or \<open>modifierExtension\<close> is null or an array, of type
  Extension, of objects with one \<open>url\<close> each, no other array is of type Extension, a number
  that is not a decimal has no decimal point, and an instant is written the way
  \<^verbatim>\<open>json.Marshal\<close> prints it.
\<close>

fun readBack :: "jtext \<Rightarrow> json"
  and readBackMembers :: "(string \<times> jtext) list \<Rightarrow> (string \<times> json) list"
  and readBackElements :: "jtext list \<Rightarrow> json list"
where
  "readBack (TObject _ members) = JObject (readBackMembers members)"
| "readBack (TArray elems) = JArray (readBackElements elems)"
| "readBack (TString s) = JString s"
| "readBack (TNumber s) = JNumber s"
| "readBack (TRaw s) = JNumber s"
| "readBack (TBool b) = JBoolean b"
| "readBack TNull = JNull"
| "readBackMembers [] = []"
| "readBackMembers ((key, t) # rest) = (key, readBack t) # readBackMembers rest"
| "readBackElements [] = []"
| "readBackElements (t # rest) = readBack t # readBackElements rest"

fun wellFormed :: "jtext \<Rightarrow> bool"
  and wellFormedMembers :: "(string \<times> jtext) list \<Rightarrow> bool"
  and wellFormedElements :: "jtext list \<Rightarrow> bool"
where
  "wellFormed (TObject leading members) = (\<not> leading \<and> wellFormedMembers members)"
| "wellFormed (TArray elems) = wellFormedElements elems"
| "wellFormed _ = True"
| "wellFormedMembers [] = True"
| "wellFormedMembers ((key, t) # rest) = (wellFormed t \<and> wellFormedMembers rest)"
| "wellFormedElements [] = True"
| "wellFormedElements (t # rest) = (wellFormed t \<and> wellFormedElements rest)"

inductive reordered :: "'a list \<Rightarrow> 'a list \<Rightarrow> bool" where
  reordered_Nil: "reordered [] []"
| reordered_Cons: "reordered xs ys \<Longrightarrow> reordered (x # xs) (x # ys)"
| reordered_swap: "reordered (x # y # xs) (y # x # xs)"
| reordered_trans: "reordered xs ys \<Longrightarrow> reordered ys zs \<Longrightarrow> reordered xs zs"

inductive json_eq :: "json \<Rightarrow> json \<Rightarrow> bool" where
  eq_null: "json_eq JNull JNull"
| eq_boolean: "json_eq (JBoolean b) (JBoolean b)"
| eq_string: "json_eq (JString s) (JString s)"
| eq_number: "json_eq (JNumber s) (JNumber s)"
| eq_integer: "Atoi a = (v, True) \<Longrightarrow> Atoi b = (v, True) \<Longrightarrow> json_eq (JNumber a) (JNumber b)"
| eq_array: "list_all2 json_eq xs ys \<Longrightarrow> json_eq (JArray xs) (JArray ys)"
| eq_object:
    "reordered ms' ms \<Longrightarrow> list_all2 (\<lambda>m n. fst m = fst n \<and> json_eq (snd m) (snd n)) ms' ns
     \<Longrightarrow> json_eq (JObject ms) (JObject ns)"

definition plainKey :: "string \<Rightarrow> bool" where
  "plainKey key \<longleftrightarrow>
     \<not> skipped key
     \<and> key \<notin> {''__strNum'', ''__strDate'', ''precision'', ''__id'',
                ''__gofhirEncryptedBSON'', ''__gofhirEncryptionKeyId''}"

fun plainValue :: "'t codec_env \<Rightarrow> positionInfo \<Rightarrow> json \<Rightarrow> bool"
  and plainMembers :: "'t codec_env \<Rightarrow> positionInfo \<Rightarrow> bool \<Rightarrow> (string \<times> json) list \<Rightarrow> bool"
  and plainElements :: "'t codec_env \<Rightarrow> positionInfo \<Rightarrow> json list \<Rightarrow> bool"
  and plainExtensions :: "'t codec_env \<Rightarrow> positionInfo \<Rightarrow> json list \<Rightarrow> bool"
where
  "plainValue env pos (JObject members) = plainMembers env pos False members"
| "plainValue env pos (JArray elems) = (\<not> atExtension pos \<and> plainElements env pos elems)"
| "plainValue env pos (JString s) =
     (if atDate pos then True
      else if atInstant pos
      then (case parseInstant env s of None \<Rightarrow> True | Some t \<Rightarrow> marshalTime env t = Some s)
      else True)"
| "plainValue env pos (JNumber s) = (atDecimal pos \<or> CHR ''.'' \<notin> set s)"
| "plainValue env pos (JBoolean b) = True"
| "plainValue env pos JNull = True"
| "plainMembers env pos skipUrl [] = True"
| "plainMembers env pos skipUrl ((key, v) # rest) =
     (if skipUrl \<and> key = ''url'' then plainMembers env pos skipUrl rest
      else plainKey key
           \<and> (case downTo env pos key v of
                 Inl e \<Rightarrow> True
               | Inr nextPos \<Rightarrow>
                   (if key = ''extension'' \<or> key = ''modifierExtension''
                    then (case v of
                            JNull \<Rightarrow> True
                          | JArray elems \<Rightarrow> atExtension nextPos \<and> plainExtensions env nextPos elems
                          | _ \<Rightarrow> False)
                    else plainValue env nextPos v))
           \<and> plainMembers env pos skipUrl rest)"
| "plainElements env pos [] = True"
| "plainElements env pos (v # rest) =
     ((case intoArray env pos v of Inl e \<Rightarrow> True | Inr nextPos \<Rightarrow> plainValue env nextPos v)
      \<and> plainElements env pos rest)"
| "plainExtensions env pos [] = True"
| "plainExtensions env pos (JObject members # rest) =
     (length (filter (\<lambda>m. fst m = ''url'') members) = 1
      \<and> plainMembers env pos True members \<and> plainExtensions env pos rest)"
| "plainExtensions env pos (_ # rest) = False"

definition plainResource :: "'t codec_env \<Rightarrow> json \<Rightarrow> bool" where
  "plainResource env j =
     (case GetString j ''resourceType'' of
        None \<Rightarrow> False
      | Some resourceType' \<Rightarrow>
          (case j of
             JObject members \<Rightarrow>
               plainMembers env
                 \<lparr>element = resourceType', needToReadResourceType = False, pathHere = resourceType'\<rparr>
                 False members
           | _ \<Rightarrow> False))"

text \<open>Invariants of the member loop, for the proofs.\<close>

definition sameMember :: "string \<times> json \<Rightarrow> string \<times> jtext \<Rightarrow> bool" where
  "sameMember m n \<longleftrightarrow> fst m = fst n \<and> wellFormed (snd n) \<and> json_eq (snd m) (readBack (snd n))"

definition sameValue :: "json \<Rightarrow> jtext \<Rightarrow> bool" where
  "sameValue j t \<longleftrightarrow> wellFormed t \<and> json_eq j (readBack t)"

definition scanKeys :: "(string \<times> 't bson) list \<Rightarrow> bool" where
  "scanKeys d \<longleftrightarrow> (\<forall>m \<in> set d. fst m \<notin> {''__strNum'', ''__strDate'', ''precision''})"

definition firstShown :: "(string \<times> 't bson) list \<Rightarrow> bool" where
  "firstShown d \<longleftrightarrow> (case d of [] \<Rightarrow> True | m # _ \<Rightarrow> \<not> skipped (fst m))"

definition rootKeys :: "(string \<times> 't bson) list \<Rightarrow> bool" where
  "rootKeys d \<longleftrightarrow>
     (\<forall>m \<in> set d. \<not> docIncluded (fst m)
        \<and> fst m \<notin> {''__gofhirEncryptedBSON'', ''__gofhirEncryptionKeyId''})"

definition membersResult ::
  "'t codec_env \<Rightarrow> bool \<Rightarrow> (string \<times> json) list \<Rightarrow> (string \<times> 't bson) list \<Rightarrow> (string \<times> 't bson) list \<Rightarrow> bool" where
  "membersResult env skipUrl ms out out' \<longleftrightarrow>
     (\<exists>pre post tpre tpost us vs.
        out' = pre @ out @ post \<and> (\<forall>m \<in> set pre. fst m = ''_id'') \<and> firstShown post \<and> scanKeys post
        \<and> processMembers env pre = Inr tpre \<and> processMembers env post = Inr tpost
        \<and> reordered (us @ vs) (if skipUrl then filter (\<lambda>m. fst m \<noteq> ''url'') ms else ms)
        \<and> list_all2 sameMember us tpre \<and> list_all2 sameMember vs tpost)"

subsection \<open>A small type registry for examples\<close>

text \<open>
  A few entries of the FHIR type registry, and an environment in which a time is
  represented by its RFC 3339 text.
\<close>

definition exampleTypes :: "string \<rightharpoonup> string" where
  "exampleTypes = map_of
     [(''Patient.id'', ''id''),
      (''Patient.birthDate'', ''date''),
      (''Patient.active'', ''boolean''),
      (''Patient.multipleBirthInteger'', ''integer''),
      (''Patient.extension'', ''Extension''),
      (''Patient.managingOrganization'', ''Reference''),
      (''Organization.id'', ''id''),
      (''Observation.id'', ''id''),
      (''Observation.subject'', ''Reference''),
      (''Observation.valueQuantity'', ''Quantity''),
      (''Observation.extension'', ''Extension''),
      (''Quantity.value'', ''decimal''),
      (''Quantity.unit'', ''string''),
      (''Reference.reference'', ''string''),
      (''Reference.display'', ''string''),
      (''Extension.valueString'', ''string''),
      (''Bundle.id'', ''id''),
      (''_.id'', ''string''),
      (''_.extension'', ''Extension'')]"

definition exampleCodec :: "string codec_env" where
  "exampleCodec =
     \<lparr>fhirTypes = exampleTypes,
      parseDate = (\<lambda>s. if s = ''1970-01-01'' then Some (''1970-01-01T00:00:00Z'', ''1970-01-02T00:00:00Z'')
                       else None),
      parseInstant = (\<lambda>s. if s = ''2019-07-05T10:00:00Z'' then Some s else None),
      marshalTime = Some,
      getFloat = (\<lambda>s. list_all (\<lambda>c. c \<in> set ''0123456789.-'') s),
      marshalFloat = Some\<rparr>"








text \<open>
  An Observation with a reference, a decimal, an extension and its \<open>id\<close> last, as it is
  stored and as it is written; and two Patients the ingest accepts.
\<close>

definition exampleObservation :: json where
  "exampleObservation =
     JObject
       [(''resourceType'', JString ''Observation''),
        (''subject'', JObject [(''reference'', JString ''Patient/12'')]),
        (''valueQuantity'', JObject [(''value'', JNumber ''1.50''), (''unit'', JString ''kg'')]),
        (''extension'', JArray [JObject [(''valueString'', JString ''v''), (''url'', JString ''http://e'')]]),
        (''id'', JString ''o1'')]"

definition exampleStored :: "(string \<times> string bson) list" where
  "exampleStored =
     [(''_id'', BStr ''o1''),
      (''resourceType'', BStr ''Observation''),
      (''subject'', BDoc [(''reference'', BStr ''Patient/12''), (''reference__id'', BStr ''12''),
                          (''reference__type'', BStr ''Patient''),
                          (''reference__external'', BBool False)]),
      (''valueQuantity'',
         BDoc [(''value'', BDoc [(''__from'', BFloat ''1.50''), (''__to'', BFloat ''1.50''),
                                 (''__num'', BFloat ''1.50''), (''__strNum'', BStr ''1.50'')]),
               (''unit'', BStr ''kg'')]),
      (''extension'', BArr [BDoc [(''http://e'', BDoc [(''valueString'', BStr ''v'')])]])]"

definition exampleText :: jtext where
  "exampleText =
     TObject False
       [(''id'', TString ''o1''),
        (''resourceType'', TString ''Observation''),
        (''subject'', TObject False [(''reference'', TString ''Patient/12'')]),
        (''valueQuantity'', TObject False [(''value'', TRaw ''1.50''), (''unit'', TString ''kg'')]),
        (''extension'', TArray [TObject False [(''url'', TString ''http://e''),
                                               (''valueString'', TString ''v'')]])]"

definition quantityValuePos :: positionInfo where
  "quantityValuePos =
     \<lparr>element = ''decimal'', needToReadResourceType = False,
      pathHere = ''Observation.valueQuantity.value''\<rparr>"

definition storedDecimal :: "string bson" where
  "storedDecimal = BDoc [(''__from'', BFloat ''1.50''), (''__to'', BFloat ''1.50''),
                         (''__num'', BFloat ''1.50''), (''__strNum'', BStr ''1.50'')]"

definition lookupPatient :: json where
  "lookupPatient = JObject [(''resourceType'', JString ''Patient''), (''_lookupX'', JNumber ''1'')]"

definition nullExtensionPatient :: json where
  "nullExtensionPatient = JObject [(''resourceType'', JString ''Patient''), (''extension'', JArray [JNull])]"

section \<open>Proofs: the temporary-id pattern\<close>

lemma rmatch_Str[simp]: "t \<in> set (rmatch (Str p) s) \<longleftrightarrow> s = p @ t"
  by (auto simp: append_eq_conv_conj) (metis append_take_drop_id)

lemma rmatch_Chars: "t \<in> set (rmatch (Chars cs) s) \<longleftrightarrow> (\<exists>c. c \<in> set cs \<and> s = c # t)"
  by (cases s) auto

lemma rmatch_Seq: "t \<in> set (rmatch (Seq a b) s) \<longleftrightarrow> (\<exists>m \<in> set (rmatch a s). t \<in> set (rmatch b m))"
  by auto

lemma rmatch_SeqE:
  assumes "t \<in> set (rmatch (Seq a b) s)"
  obtains m where "m \<in> set (rmatch a s)" "t \<in> set (rmatch b m)"
  using assms by auto

lemma rmatch_SeqI:
  "m \<in> set (rmatch a s) \<Longrightarrow> t \<in> set (rmatch b m) \<Longrightarrow> t \<in> set (rmatch (Seq a b) s)"
  by auto

lemma rmatch_Alt: "t \<in> set (rmatch (Alt a b) s) \<longleftrightarrow> t \<in> set (rmatch a s) \<or> t \<in> set (rmatch b s)"
  by auto

lemma rmatch_Eot: "t \<in> set (rmatch Eot s) \<longleftrightarrow> s = [] \<and> t = []"
  by auto

lemma rmatch_Rep_Chars:
  "t \<in> set (rmatch (Rep n (Chars cs)) s) \<longleftrightarrow> (\<exists>w. s = w @ t \<and> length w = n \<and> set w \<subseteq> set cs)"
proof (induction n arbitrary: s)
  case 0
  then show ?case by auto
next
  case (Suc n)
  show ?case
  proof
    assume "t \<in> set (rmatch (Rep (Suc n) (Chars cs)) s)"
    then obtain m where m: "m \<in> set (rmatch (Chars cs) s)" "t \<in> set (rmatch (Rep n (Chars cs)) m)"
      by auto
    from m(1) obtain c where c: "c \<in> set cs" "s = c # m" by (auto simp: rmatch_Chars)
    from m(2) Suc.IH obtain w where "m = w @ t" "length w = n" "set w \<subseteq> set cs" by blast
    with c show "\<exists>w. s = w @ t \<and> length w = Suc n \<and> set w \<subseteq> set cs"
      by (intro exI[of _ "c # w"]) auto
  next
    assume "\<exists>w. s = w @ t \<and> length w = Suc n \<and> set w \<subseteq> set cs"
    then obtain w where w: "s = w @ t" "length w = Suc n" "set w \<subseteq> set cs" by blast
    then obtain c w' where cw: "w = c # w'" by (cases w) auto
    with w have "w' @ t \<in> set (rmatch (Chars cs) s)" by (auto simp: rmatch_Chars)
    moreover from w cw Suc.IH[of "w' @ t"] have "t \<in> set (rmatch (Rep n (Chars cs)) (w' @ t))" by auto
    ultimately show "t \<in> set (rmatch (Rep (Suc n) (Chars cs)) s)" by auto
  qed
qed

lemma MatchString_iff: "MatchString r s \<longleftrightarrow> (\<exists>pre suf. s = pre @ suf \<and> rmatch r suf \<noteq> [])"
proof (induction s)
  case Nil
  then show ?case by auto
next
  case (Cons c t)
  show ?case
  proof
    assume "MatchString r (c # t)"
    then consider "rmatch r (c # t) \<noteq> []" | "MatchString r t" by auto
    then show "\<exists>pre suf. c # t = pre @ suf \<and> rmatch r suf \<noteq> []"
    proof cases
      case 1
      then show ?thesis by (intro exI[of _ "[]"] exI[of _ "c # t"]) auto
    next
      case 2
      with Cons.IH obtain pre suf where "t = pre @ suf" "rmatch r suf \<noteq> []" by blast
      then show ?thesis by (intro exI[of _ "c # pre"] exI[of _ suf]) auto
    qed
  next
    assume "\<exists>pre suf. c # t = pre @ suf \<and> rmatch r suf \<noteq> []"
    then obtain pre suf where ps: "c # t = pre @ suf" "rmatch r suf \<noteq> []" by blast
    show "MatchString r (c # t)"
    proof (cases pre)
      case Nil
      with ps show ?thesis by auto
    next
      case (Cons a pre')
      with ps have "t = pre' @ suf" by auto
      with ps(2) Cons.IH show ?thesis by auto
    qed
  qed
qed

lemma rmatch_tail:
  "(\<exists>t. t \<in> set (rmatch (Alt (Str ''&'') (Alt (Str '','') Eot)) s)) \<longleftrightarrow> tempid_end s"
  unfolding tempid_end_def by (cases s) auto

lemma rmatch_hex: "t \<in> set (rmatch (Rep n hexdigit) s) \<longleftrightarrow> (\<exists>w. s = w @ t \<and> hexs n w)"
  unfolding hexdigit_def hexs_def rmatch_Rep_Chars by blast

lemma rmatch_sep: "t \<in> set (rmatch (Chars ''=,'') s) \<longleftrightarrow> (\<exists>c. s = c # t \<and> tempid_sep c)"
  unfolding rmatch_Chars tempid_sep_def by auto

lemma rmatch_scheme:
  "t \<in> set (rmatch (Alt (Str ''urn:uuid:'') (Str ''urn%3Auuid%3A'')) s) \<longleftrightarrow>
     (\<exists>sch. s = sch @ t \<and> tempid_scheme sch)"
  unfolding rmatch_Alt rmatch_Str tempid_scheme_def by blast

lemma rmatch_dash: "t \<in> set (rmatch (Str ''-'') s) \<longleftrightarrow> s = ''-'' @ t"
  by (rule rmatch_Str)

lemma rmatch_tempId:
  "(\<exists>t. t \<in> set (rmatch tempIdRegexp s)) \<longleftrightarrow>
     (\<exists>c sch u post. s = c # sch @ u @ post \<and> tempid_sep c \<and> tempid_scheme sch \<and>
        uuid_text u \<and> tempid_end post)"
  (is "?L \<longleftrightarrow> ?R")
proof
  assume ?L
  then obtain t where "t \<in> set (rmatch tempIdRegexp s)" ..
  then obtain m1 m2 m3 m4 m5 m6 m7 m8 m9 m10 m11 where
    1: "m1 \<in> set (rmatch (Chars ''=,'') s)" and
    2: "m2 \<in> set (rmatch  (Alt (Str ''urn:uuid:'') (Str ''urn%3Auuid%3A'')) m1)" and
    3: "m3 \<in> set (rmatch (Rep 8 hexdigit) m2)" and
    4: "m4 \<in> set (rmatch (Str ''-'') m3)" and
    5: "m5 \<in> set (rmatch (Rep 4 hexdigit) m4)" and
    6: "m6 \<in> set (rmatch (Str ''-'') m5)" and
    7: "m7 \<in> set (rmatch (Rep 4 hexdigit) m6)" and
    8: "m8 \<in> set (rmatch (Str ''-'') m7)" and
    9: "m9 \<in> set (rmatch (Rep 4 hexdigit) m8)" and
    10: "m10 \<in> set (rmatch (Str ''-'') m9)" and
    11: "m11 \<in> set (rmatch (Rep 12 hexdigit) m10)" and
    12: "t \<in> set (rmatch (Alt (Str ''&'') (Alt (Str '','') Eot)) m11)"
    unfolding tempIdRegexp_def by (elim rmatch_SeqE)
  from 1 obtain c where c: "s = c # m1" "tempid_sep c" unfolding rmatch_sep by blast
  from 2 obtain sch where sch: "m1 = sch @ m2" "tempid_scheme sch" unfolding rmatch_scheme by blast
  from 3 obtain a where a: "m2 = a @ m3" "hexs 8 a" unfolding rmatch_hex by blast
  from 4 have m3: "m3 = ''-'' @ m4" unfolding rmatch_dash .
  from 5 obtain b where b: "m4 = b @ m5" "hexs 4 b" unfolding rmatch_hex by blast
  from 6 have m5: "m5 = ''-'' @ m6" unfolding rmatch_dash .
  from 7 obtain c' where c': "m6 = c' @ m7" "hexs 4 c'" unfolding rmatch_hex by blast
  from 8 have m7: "m7 = ''-'' @ m8" unfolding rmatch_dash .
  from 9 obtain d where d: "m8 = d @ m9" "hexs 4 d" unfolding rmatch_hex by blast
  from 10 have m9: "m9 = ''-'' @ m10" unfolding rmatch_dash .
  from 11 obtain e where e: "m10 = e @ m11" "hexs 12 e" unfolding rmatch_hex by blast
  from 12 have post: "tempid_end m11" using rmatch_tail by blast
  let ?u = "a @ ''-'' @ b @ ''-'' @ c' @ ''-'' @ d @ ''-'' @ e"
  have "uuid_text ?u" unfolding uuid_text_def using a(2) b(2) c'(2) d(2) e(2) by blast
  moreover have "s = c # sch @ ?u @ m11"
    unfolding c(1) sch(1) a(1) m3 b(1) m5 c'(1) m7 d(1) m9 e(1) by (simp only: append_assoc)
  ultimately show ?R using c(2) sch(2) post by blast
next
  assume ?R
  then obtain c sch u post where
    s: "s = c # sch @ u @ post" and c: "tempid_sep c" and
    sch: "tempid_scheme sch" and u: "uuid_text u" and
    post: "tempid_end post"
    by blast
  from u obtain a b c' d e where
    u': "u = a @ ''-'' @ b @ ''-'' @ c' @ ''-'' @ d @ ''-'' @ e" and
    h: "hexs 8 a" "hexs 4 b" "hexs 4 c'" "hexs 4 d" "hexs 12 e"
    unfolding uuid_text_def by blast
  from post obtain t where 12: "t \<in> set (rmatch (Alt (Str ''&'') (Alt (Str '','') Eot)) post)"
    using rmatch_tail by blast
  have 11: "post \<in> set (rmatch (Rep 12 hexdigit) (e @ post))" unfolding rmatch_hex using h(5) by blast
  have 10: "e @ post \<in> set (rmatch (Str ''-'') (''-'' @ e @ post))" unfolding rmatch_dash ..
  have 9: "''-'' @ e @ post \<in> set (rmatch (Rep 4 hexdigit) (d @ ''-'' @ e @ post))"
    unfolding rmatch_hex using h(4) by blast
  have 8: "d @ ''-'' @ e @ post \<in> set (rmatch (Str ''-'') (''-'' @ d @ ''-'' @ e @ post))"
    unfolding rmatch_dash ..
  have 7: "''-'' @ d @ ''-'' @ e @ post \<in> set (rmatch (Rep 4 hexdigit) (c' @ ''-'' @ d @ ''-'' @ e @ post))"
    unfolding rmatch_hex using h(3) by blast
  have 6: "c' @ ''-'' @ d @ ''-'' @ e @ post \<in> set (rmatch (Str ''-'') (''-'' @ c' @ ''-'' @ d @ ''-'' @ e @ post))"
    unfolding rmatch_dash ..
  have 5: "''-'' @ c' @ ''-'' @ d @ ''-'' @ e @ post
      \<in> set (rmatch (Rep 4 hexdigit) (b @ ''-'' @ c' @ ''-'' @ d @ ''-'' @ e @ post))"
    unfolding rmatch_hex using h(2) by blast
  have 4: "b @ ''-'' @ c' @ ''-'' @ d @ ''-'' @ e @ post
      \<in> set (rmatch (Str ''-'') (''-'' @ b @ ''-'' @ c' @ ''-'' @ d @ ''-'' @ e @ post))"
    unfolding rmatch_dash ..
  have 3: "''-'' @ b @ ''-'' @ c' @ ''-'' @ d @ ''-'' @ e @ post
      \<in> set (rmatch (Rep 8 hexdigit) (a @ ''-'' @ b @ ''-'' @ c' @ ''-'' @ d @ ''-'' @ e @ post))"
    unfolding rmatch_hex using h(1) by blast
  have 2: "a @ ''-'' @ b @ ''-'' @ c' @ ''-'' @ d @ ''-'' @ e @ post
     \<in> set (rmatch (Alt (Str ''urn:uuid:'') (Str ''urn%3Auuid%3A''))
          (sch @ a @ ''-'' @ b @ ''-'' @ c' @ ''-'' @ d @ ''-'' @ e @ post))"
    unfolding rmatch_scheme using sch by blast
  have 1: "sch @ a @ ''-'' @ b @ ''-'' @ c' @ ''-'' @ d @ ''-'' @ e @ post \<in> set (rmatch (Chars ''=,'') s)"
    unfolding rmatch_sep s u' using c by (simp only: append_assoc) blast
  have "t \<in> set (rmatch tempIdRegexp s)"
    unfolding tempIdRegexp_def
    by (intro rmatch_SeqI[OF 1] rmatch_SeqI[OF 2] rmatch_SeqI[OF 3] rmatch_SeqI[OF 4]
          rmatch_SeqI[OF 5] rmatch_SeqI[OF 6] rmatch_SeqI[OF 7] rmatch_SeqI[OF 8]
          rmatch_SeqI[OF 9] rmatch_SeqI[OF 10] rmatch_SeqI[OF 11] 12)
  then show ?L ..
qed

lemma nonempty_iff: "xs \<noteq> [] \<longleftrightarrow> (\<exists>t. t \<in> set xs)"
  by (cases xs) auto

text \<open>
  Claim C9. \<open>hasTempID\<close> answers true exactly for the strings that contain a
  \<open>urn:uuid:\<close> (or \<open>urn%3Auuid%3A\<close>) UUID, written with lower-case hexadecimal
  digits, immediately preceded by \<open>=\<close> or \<open>,\<close> and immediately followed by \<open>&\<close>,
  \<open>,\<close> or the end of the string. In particular the URL of the source's own comment,
  where the UUID follows a \<open>|\<close> inside a token value, is not a temporary id.
\<close>

theorem hasTempID_characterisation:
  "(hasTempID str \<longleftrightarrow> contains_temp_id str) \<and>
   hasTempID ''Patient?identifier=urn:oid:0.1.2.3.4.5.6.7|urn:uuid:6002c2ab-9571-4db7-9a79-87163475b071'' = False"
proof
  have "hasTempID str \<longleftrightarrow> (\<exists>pre suf. str = pre @ suf \<and> (\<exists>t. t \<in> set (rmatch tempIdRegexp suf)))"
    unfolding hasTempID_def MatchString_iff nonempty_iff ..
  also have "\<dots> \<longleftrightarrow> (\<exists>pre suf. str = pre @ suf \<and>
      (\<exists>c sch u post. suf = c # sch @ u @ post \<and> tempid_sep c \<and> tempid_scheme sch \<and>
        uuid_text u \<and> tempid_end post))"
    unfolding rmatch_tempId ..
  also have "\<dots> \<longleftrightarrow> contains_temp_id str"
    unfolding contains_temp_id_def by (simp only: append_Cons append_Nil) blast
  finally show "hasTempID str \<longleftrightarrow> contains_temp_id str" .
  show "hasTempID ''Patient?identifier=urn:oid:0.1.2.3.4.5.6.7|urn:uuid:6002c2ab-9571-4db7-9a79-87163475b071'' = False"
    unfolding hasTempID_def tempIdRegexp_def hexdigit_def by simp
qed

section \<open>Proofs: paging links\<close>

lemma Atoi_offset_example: "Atoi ''4294967296'' = (4294967296, True)"
  by (simp add: Atoi_def nat_of_digits_def is_digit_def digit_of_def)

lemma pagingOffset_example: "pagingOffset ''4294967296'' = 4294967296"
  by (simp add: pagingOffset_def Atoi_offset_example)

lemma pagingCount_default: "pagingCount [] = 100"
  by (simp add: pagingCount_def defaultCount_def)

text \<open>
  As long as \<open>offset + count\<close> stays below \<open>2^32\<close> the links of a pageable query are as
  the paging laws describe them: \<open>self\<close> and \<open>first\<close> always, \<open>previous\<close> exactly
  for a positive offset, \<open>last\<close> exactly when totals are counted, and \<open>next\<close> exactly
  when results remain (totals counted) or when the page is full (totals not counted).
\<close>

lemma paging_links_in_range:
  "has_link ''self'' (generatePagingLinks ct True po pc tot n)"
  "has_link ''first'' (generatePagingLinks ct True po pc tot n)"
  "has_link ''previous'' (generatePagingLinks ct True po pc tot n) \<longleftrightarrow> pagingOffset po > 0"
  "has_link ''last'' (generatePagingLinks ct True po pc tot n) \<longleftrightarrow> ct"
  "ct \<Longrightarrow> pagingOffset po + pagingCount pc < 2 ^ 32 \<Longrightarrow>
     has_link ''next'' (generatePagingLinks ct True po pc tot n)
       \<longleftrightarrow> uint tot > pagingOffset po + pagingCount pc"
  "\<not> ct \<Longrightarrow> has_link ''next'' (generatePagingLinks ct True po pc tot n)
       \<longleftrightarrow> uint n = pagingCount pc"
  unfolding generatePagingLinks_def has_link_def previousLink_def lastLink_def Let_def uint32_def
  by (auto simp: pagingOffset_def pagingCount_def defaultCount_def Let_def)

text \<open>
  Claim C6 (the paging laws). The claim holds in the range above, but not for every
  search: the comparison \<^verbatim>\<open>total > uint32(offset+count)\<close> keeps only the low 32 bits
  of \<open>offset + count\<close>. For the request \<open>_offset=4294967296\<close> with the default page
  size and 150 matching resources in total, no result remains behind the page
  (\<open>150\<close> is not greater than \<open>4294967396\<close>), and yet a \<open>next\<close> link is produced.
\<close>

theorem generatePagingLinks_uint32_truncation:
  "generatePagingLinks True True ''4294967296'' [] 150 0 =
     [Link ''self'' 4294967296 100, Link ''first'' 0 100, Link ''previous'' 4294967196 100,
      Link ''next'' 4294967396 100, Link ''last'' 50 100] \<and>
   (uint (150 :: 32 word) > pagingOffset ''4294967296'' + pagingCount []) = False"
  by (simp add: generatePagingLinks_def pagingOffset_example pagingCount_default Let_def
        previousLink_def lastLink_def uint32_def wrap64_def go_rem_def)

section \<open>Proofs: the storage engine\<close>

lemma nat_of_digits_snoc: "nat_of_digits (ds @ [c]) = 10 * nat_of_digits ds + digit_of c"
  by (simp add: nat_of_digits_def)

lemma lt10_cases: "d < 10 \<Longrightarrow> d = 0 \<or> d = 1 \<or> d = 2 \<or> d = 3 \<or> d = 4 \<or> d = 5 \<or> d = 6 \<or> d = 7 \<or> d = 8 \<or> d = (9::nat)"
  by arith

lemma digit_char_props:
  assumes "d < 10"
  shows "digit_of (digit_char d) = d" "is_digit (digit_char d)"
        "digit_char d \<noteq> CHR ''-''" "digit_char d \<noteq> CHR ''+''"
  using lt10_cases[OF assms]
  by (auto simp: digit_char_def digit_of_def is_digit_def)

lemma digits_of_nat_props:
  "digits_of_nat n \<noteq> [] \<and> list_all is_digit (digits_of_nat n) \<and> nat_of_digits (digits_of_nat n) = n"
proof (induction n rule: digits_of_nat.induct)
  case (1 n)
  show ?case
  proof (cases "n < 10")
    case True
    then show ?thesis
      by (simp add: digits_of_nat.simps[of n] digit_char_props nat_of_digits_def)
  next
    case False
    have m: "n mod 10 < 10" by simp
    from False 1 have ih: "digits_of_nat (n div 10) \<noteq> []" "list_all is_digit (digits_of_nat (n div 10))"
      "nat_of_digits (digits_of_nat (n div 10)) = n div 10" by auto
    from False have eq: "digits_of_nat n = digits_of_nat (n div 10) @ [digit_char (n mod 10)]"
      by (simp add: digits_of_nat.simps[of n])
    show ?thesis
      unfolding eq using ih digit_char_props[OF m] by (simp add: nat_of_digits_snoc)
  qed
qed

lemma digits_of_nat_hd: "\<exists>c cs. digits_of_nat n = c # cs \<and> c \<noteq> CHR ''-'' \<and> c \<noteq> CHR ''+''"
proof -
  obtain c cs where cs: "digits_of_nat n = c # cs"
    using digits_of_nat_props[of n] by (cases "digits_of_nat n") auto
  with digits_of_nat_props[of n] have "is_digit c" by simp
  then have "c \<noteq> CHR ''-'' \<and> c \<noteq> CHR ''+''" by (auto simp: is_digit_def)
  with cs show ?thesis by blast
qed

lemma Atoi_Itoa:
  assumes "- (2 ^ 63) \<le> i" "i < 2 ^ 63"
  shows "Atoi (Itoa i) = (i, True)"
proof (cases "i < 0")
  case True
  let ?ds = "digits_of_nat (nat (- i))"
  have p: "?ds \<noteq> []" "list_all is_digit ?ds" "nat_of_digits ?ds = nat (- i)"
    using digits_of_nat_props[of "nat (- i)"] by auto
  have "Itoa i = CHR ''-'' # ?ds" using True by (simp add: Itoa_def)
  then show ?thesis using p True assms by (simp add: Atoi_def Let_def)
next
  case False
  let ?ds = "digits_of_nat (nat i)"
  have p: "?ds \<noteq> []" "list_all is_digit ?ds" "nat_of_digits ?ds = nat i"
    using digits_of_nat_props[of "nat i"] by auto
  obtain c cs where cs: "?ds = c # cs" "c \<noteq> CHR ''-''" "c \<noteq> CHR ''+''"
    using digits_of_nat_hd[of "nat i"] by blast
  have it: "Itoa i = c # cs" using False cs by (simp add: Itoa_def)
  have p': "list_all is_digit (c # cs)" "nat_of_digits (c # cs) = nat i"
    using p cs by auto
  show ?thesis
    unfolding it Atoi_def using cs(2,3) p' False assms by (simp add: Let_def)
qed

lemma Atoi_range: "Atoi s = (n, True) \<Longrightarrow> - (2 ^ 63) \<le> n \<and> n < 2 ^ 63"
  by (auto simp: Atoi_def Let_def split: if_splits)

lemma Itoa_inj: "- (2 ^ 63) \<le> i \<Longrightarrow> i < 2 ^ 63 \<Longrightarrow> - (2 ^ 63) \<le> j \<Longrightarrow> j < 2 ^ 63 \<Longrightarrow> Itoa i = Itoa j \<Longrightarrow> i = j"
  by (metis Atoi_Itoa prod.inject)

lemma archive_current [simp]: "current (archive rt k d st) = current st"
  by (simp add: archive_def)



lemma exampleId_valid: "convertIDToBsonID exampleId = Some exampleId"
  by (simp add: convertIDToBsonID_def exampleId_def is_hex_char_def lower_hex_def)

lemma Atoi_1: "Atoi ''1'' = (1, True)"
  by (simp add: Atoi_def nat_of_digits_def is_digit_def digit_of_def)

lemma Itoa_1: "Itoa 1 = ''1''"
  by (simp add: Itoa_def digits_of_nat.simps digit_char_def)

lemma getVersion_1: "getVersionIdFromResource (exampleDoc ''1'') = Inr (True, 1, ''1'')"
  by (simp add: getVersionIdFromResource_def exampleDoc_def Atoi_1)




lemma upsert_mem: "(k, v) \<in> set (upsert k v kvs)"
  by (induction kvs) auto

lemma wrap64_id: "- (2 ^ 63) \<le> x \<Longrightarrow> x < 2 ^ 63 \<Longrightarrow> wrap64 x = x"
  by (simp add: wrap64_def)

lemma versionNumber_of:
  "getVersionIdFromResource d = Inr (has, v, vs) \<Longrightarrow> versionNumber d = (if has then v else 0)"
  by (auto simp: getVersionIdFromResource_def versionNumber_def split: option.splits prod.splits bool.splits)

lemma versionNumber_range:
  "getVersionIdFromResource d = Inr (has, v, vs) \<Longrightarrow> - (2 ^ 63) \<le> versionNumber d \<and> versionNumber d < 2 ^ 63"
  by (auto simp: getVersionIdFromResource_def versionNumber_def  split: option.splits prod.splits bool.splits
      dest: Atoi_range)

lemma current_setCurrent [simp]:
  "current (setCurrent rt i d st) rt i = d"
  by (simp add: setCurrent_def)

lemma previous_setCurrent [simp]:
  "previous (setCurrent rt i d st) = previous st"
  by (simp add: setCurrent_def)

lemma PostWithID_version:
  assumes "convertIDToBsonID ident = Some hex" "PostWithID now st ident res = (Inr res', st')"
  shows "rVersionId res' = ''1'' \<and> map_option versionText (current st' (resourceType res) hex) = Some ''1''"
  using assms
  by (auto simp: PostWithID_def Let_def updateResourceMeta_def Itoa_1 GetBSON_def versionText_def
      split: option.split_asm)

lemma Put_version:
  assumes valid: "convertIDToBsonID ident = Some hex"
    and cur: "current st (resourceType res) hex = Some d"
    and gv: "getVersionIdFromResource d = Inr (has, v, vs)"
    and bound: "versionNumber d < 2 ^ 63 - 1"
    and put: "Put True now st ident cvid res = (Inr (createdNew, res'), st')"
  shows "Atoi (rVersionId res') = (versionNumber d + 1, True) \<and>
         map_option versionText (current st' (resourceType res) hex) = Some (rVersionId res') \<and>
         \<not> createdNew"
proof -
  have vn: "versionNumber d = (if has then v else 0)" using gv by (rule versionNumber_of)
  have rg: "- (2 ^ 63) \<le> versionNumber d" using versionNumber_range[OF gv] by simp
  have nv: "(if has then wrap64 (v + 1) else 1) = versionNumber d + 1"
    using vn rg bound by (auto simp: wrap64_id)
  have at: "Atoi (Itoa (versionNumber d + 1)) = (versionNumber d + 1, True)"
    using rg bound by (intro Atoi_Itoa) auto
  from put show ?thesis
    unfolding Put_def PutWith_def using valid cur gv nv at
    by (auto simp: Let_def updateResourceMeta_def GetBSON_def versionText_def
        split: if_splits option.splits)
qed

lemma Delete_version:
  assumes valid: "convertIDToBsonID ident = Some hex"
    and cur: "current st rt hex = Some d"
    and gv: "getVersionIdFromResource d = Inr (has, v, vs)"
    and bound: "versionNumber d < 2 ^ 63 - 1"
  shows "\<exists>st'. Delete True now st ident rt = ((Itoa (versionNumber d + 1), None), st') \<and>
           current st' rt hex = None \<and>
           (\<lparr>key_id = hex, key_version = int32 (versionNumber d + 1), key_deleted = True\<rparr>,
             DeletionRecord (Itoa (versionNumber d + 1)) now) \<in> set (previous st' rt) \<and>
           Atoi (Itoa (versionNumber d + 1)) = (versionNumber d + 1, True)"
proof -
  have vn: "versionNumber d = (if has then v else 0)" using gv by (rule versionNumber_of)
  have rg: "- (2 ^ 63) \<le> versionNumber d" using versionNumber_range[OF gv] by simp
  have nv: "(if has then wrap64 (v + 1) else 1) = versionNumber d + 1"
    using vn rg bound by (auto simp: wrap64_id)
  have at: "Atoi (Itoa (versionNumber d + 1)) = (versionNumber d + 1, True)"
    using rg bound by (intro Atoi_Itoa) auto
  show ?thesis
    unfolding Delete_def saveDeletionIntoHistory_def using valid cur gv nv at
    by (simp add: Let_def archive_def upsert_mem)
qed

lemma Itoa_2: "Itoa 2 = ''2''"
  by (simp add: Itoa_def digits_of_nat.simps digit_char_def)


lemma wrap64_2: "wrap64 2 = 2"
  by (simp add: wrap64_def)

lemma int32_small: "int32 0 = 0" "int32 1 = 1" "int32 2 = 2"
  by (simp_all add: int32_def)

text \<open>
  Claim C3 as stated does not hold for every sequence of accepted writes: with history
  disabled every update writes version 1 again, and with history enabled an update that
  follows a delete finds no current document and starts again at 1.
\<close>

theorem versionId_counterexample:
  "assignedVersions False exampleNow exampleId ''Patient'' emptyStore
     [OpCreate examplePatient, OpUpdate examplePatient] = Some [''1'', ''1''] \<and>
   assignedVersions True exampleNow exampleId ''Patient'' emptyStore
     [OpCreate examplePatient, OpDelete, OpUpdate examplePatient] = Some [''1'', ''2'', ''1'']"
  by (simp add: applyOp_def PostWithID_def Put_def PutWith_def Delete_def saveDeletionIntoHistory_def
        exampleId_valid Let_def updateResourceMeta_def GetBSON_def setCurrent_def archive_def
        getVersionIdFromResource_def Atoi_1 Itoa_1 Itoa_2 wrap64_2 int32_small modifiedCount_def
        emptyStore_def examplePatient_def)

text \<open>
  Claim C3, as the code has it, with history enabled and for a well-formed id: a create
  assigns version 1; an accepted update of an existing current document assigns the
  successor of its version (a document without version counting as 0) and is not reported
  as a creation; a delete of an existing current document writes a deletion record with
  the successor of its version and removes the current document. The successor is computed
  in 64-bit arithmetic, hence the bound.
\<close>

theorem versionId_assignment:
  assumes valid: "convertIDToBsonID ident = Some hex"
  shows "(PostWithID now st ident res = (Inr res', st') \<longrightarrow>
            rVersionId res' = ''1'' \<and>
            map_option versionText (current st' (resourceType res) hex) = Some ''1'')
       \<and> (current st (resourceType res) hex = Some d \<and>
            getVersionIdFromResource d = Inr (has, v, vs) \<and> versionNumber d < 2 ^ 63 - 1 \<and>
            Put True now st ident cvid res = (Inr (createdNew, res''), st'') \<longrightarrow>
            Atoi (rVersionId res'') = (versionNumber d + 1, True) \<and>
            map_option versionText (current st'' (resourceType res) hex) = Some (rVersionId res'') \<and>
            \<not> createdNew)
       \<and> (current st rt hex = Some d \<and>
            getVersionIdFromResource d = Inr (has, v, vs) \<and> versionNumber d < 2 ^ 63 - 1 \<longrightarrow>
            fst (Delete True now st ident rt) = (Itoa (versionNumber d + 1), None) \<and>
            Atoi (Itoa (versionNumber d + 1)) = (versionNumber d + 1, True) \<and>
            current (snd (Delete True now st ident rt)) rt hex = None \<and>
            (\<lparr>key_id = hex, key_version = int32 (versionNumber d + 1), key_deleted = True\<rparr>,
              DeletionRecord (Itoa (versionNumber d + 1)) now)
              \<in> set (previous (snd (Delete True now st ident rt)) rt))"
proof (intro conjI impI)
  assume "PostWithID now st ident res = (Inr res', st')"
  then show "rVersionId res' = ''1''"
    and "map_option versionText (current st' (resourceType res) hex) = Some ''1''"
    using PostWithID_version[OF valid] by blast+
next
  assume a: "current st (resourceType res) hex = Some d \<and>
            getVersionIdFromResource d = Inr (has, v, vs) \<and> versionNumber d < 2 ^ 63 - 1 \<and>
            Put True now st ident cvid res = (Inr (createdNew, res''), st'')"
  then have "Atoi (rVersionId res'') = (versionNumber d + 1, True) \<and>
         map_option versionText (current st'' (resourceType res) hex) = Some (rVersionId res'') \<and>
         \<not> createdNew"
    using Put_version[OF valid] by blast
  then show "Atoi (rVersionId res'') = (versionNumber d + 1, True)"
    and "map_option versionText (current st'' (resourceType res) hex) = Some (rVersionId res'')"
    and "\<not> createdNew" by blast+
next
  assume a: "current st rt hex = Some d \<and>
            getVersionIdFromResource d = Inr (has, v, vs) \<and> versionNumber d < 2 ^ 63 - 1"
  then obtain st' where d: "Delete True now st ident rt = ((Itoa (versionNumber d + 1), None), st')"
           "current st' rt hex = None"
           "(\<lparr>key_id = hex, key_version = int32 (versionNumber d + 1), key_deleted = True\<rparr>,
             DeletionRecord (Itoa (versionNumber d + 1)) now) \<in> set (previous st' rt)"
           "Atoi (Itoa (versionNumber d + 1)) = (versionNumber d + 1, True)"
    using Delete_version[OF valid, of st rt d has v vs now] by blast
  show "fst (Delete True now st ident rt) = (Itoa (versionNumber d + 1), None)" using d(1) by simp
  show "Atoi (Itoa (versionNumber d + 1)) = (versionNumber d + 1, True)" by (rule d(4))
  show "current (snd (Delete True now st ident rt)) rt hex = None" using d(1,2) by simp
  show "(\<lparr>key_id = hex, key_version = int32 (versionNumber d + 1), key_deleted = True\<rparr>,
              DeletionRecord (Itoa (versionNumber d + 1)) now)
              \<in> set (previous (snd (Delete True now st ident rt)) rt)" using d(1,3) by simp
qed

lemma versionNumber_example: "versionNumber (exampleDoc ''1'') = 1"
  by (simp add: versionNumber_def exampleDoc_def Atoi_1)

lemma Put_example:
  "Put True exampleNow (storeWith (exampleDoc ''1'')) exampleId [] examplePatient =
     (Inr (False, examplePatient\<lparr>rId := exampleId, rLastUpdated := exampleNow, rVersionId := ''2''\<rparr>),
      snd (Put True exampleNow (storeWith (exampleDoc ''1'')) exampleId [] examplePatient))"
  apply (simp add: Put_def PutWith_def exampleId_valid getVersion_1 Let_def storeWith_def
        examplePatient_def wrap64_2 updateResourceMeta_def Itoa_2)
  apply (simp add: selectorMatches_def modifiedCount_def GetBSON_def exampleDoc_def Itoa_1)
  done

lemma PostWithID_example:
  "PostWithID exampleNow emptyStore exampleId examplePatient =
     (Inr (examplePatient\<lparr>rId := exampleId, rLastUpdated := exampleNow, rVersionId := ''1''\<rparr>),
      snd (PostWithID exampleNow emptyStore exampleId examplePatient))"
  by (simp add: PostWithID_def exampleId_valid Let_def updateResourceMeta_def Itoa_1 emptyStore_def)

theorem versionId_assignment_witness:
  "convertIDToBsonID exampleId = Some exampleId \<and>
   rVersionId (examplePatient\<lparr>rId := exampleId, rLastUpdated := exampleNow, rVersionId := ''1''\<rparr>) = ''1'' \<and>
   current (storeWith (exampleDoc ''1'')) ''Patient'' exampleId = Some (exampleDoc ''1'') \<and>
   getVersionIdFromResource (exampleDoc ''1'') = Inr (True, 1, ''1'') \<and>
   versionNumber (exampleDoc ''1'') < 2 ^ 63 - 1 \<and>
   Atoi ''2'' = (2, True) \<and>
   fst (Delete True exampleNow (storeWith (exampleDoc ''1'')) exampleId ''Patient'') = (''2'', None)"
proof -
  have cur: "current (storeWith (exampleDoc ''1'')) ''Patient'' exampleId = Some (exampleDoc ''1'')"
    by (simp add: storeWith_def)
  have rt: "resourceType examplePatient = ''Patient''" by (simp add: examplePatient_def)
  have bound: "versionNumber (exampleDoc ''1'') < 2 ^ 63 - 1" by (simp add: versionNumber_example)
  note w1 = versionId_assignment [OF exampleId_valid, where now = exampleNow and st = emptyStore
      and res = examplePatient
      and res' = "examplePatient\<lparr>rId := exampleId, rLastUpdated := exampleNow, rVersionId := ''1''\<rparr>"
      and st' = "snd (PostWithID exampleNow emptyStore exampleId examplePatient)"]
  note w2 = versionId_assignment [OF exampleId_valid, where now = exampleNow
      and st = "storeWith (exampleDoc ''1'')" and res = examplePatient
      and d = "exampleDoc ''1''" and has = True and v = 1 and vs = "''1''" and cvid = "[]"
      and createdNew = False
      and res'' = "examplePatient\<lparr>rId := exampleId, rLastUpdated := exampleNow, rVersionId := ''2''\<rparr>"
      and st'' = "snd (Put True exampleNow (storeWith (exampleDoc ''1'')) exampleId [] examplePatient)"
      and rt = "''Patient''"]
  show ?thesis
    using w1 w2 PostWithID_example Put_example cur getVersion_1 bound exampleId_valid
    by (simp add: rt versionNumber_example Itoa_2)
qed

section \<open>Proofs: conditional create and the provenance header\<close>

lemma split_on_nonempty: "split_on c s \<noteq> []"
  by (induction s) (auto split: list.splits)

lemma split_on_no_sep: "c \<notin> set t \<Longrightarrow> split_on c t = [t]"
  by (induction t) auto

lemma split_on_append_sep:
  "c \<notin> set t \<Longrightarrow> split_on c (p @ c # t) = split_on c p @ [t]"
proof (induction p)
  case Nil
  then show ?case by (simp add: split_on_no_sep)
next
  case (Cons x p)
  obtain w ws where ws: "split_on c p = w # ws"
    using split_on_nonempty[of c p] by (cases "split_on c p") auto
  show ?case using Cons ws by simp
qed

lemma split_on_last_append:
  "c \<notin> set t \<Longrightarrow> last (split_on c (p @ c # t)) = t"
  by (simp add: split_on_append_sep)

lemma responseURL_last:
  assumes "CHR ''/'' \<notin> set i"
  shows "last (split_on CHR ''/'' (responseURL base [url, i])) = i"
proof -
  have eq: "responseURL base [url, i] = (base @ ''/'' @ url) @ CHR ''/'' # i"
    by (simp add: responseURL_def)
  show ?thesis unfolding eq by (rule split_on_last_append[OF assms])
qed






lemma doRequestInner_POST_200:
  assumes "CHR ''/'' \<notin> set i" "convertIDToBsonID i = Some i" "current st (reqUrl rq) i = Some d"
  shows "doRequestInner_POST eh now st ''200'' [] (e\<lparr>fullUrl := responseURL base [reqUrl rq, i]\<rparr>) rq =
     ((None, e\<lparr>fullUrl := responseURL base [reqUrl rq, i],
               eResponse := Some (updateEntryMeta (NewResourceFromBSON i d)
                  \<lparr>rspStatus = ''200'', rspLocation = responseURL base [reqUrl rq, i], rspEtag = [],
                    rspLastModified = [], rspOutcome = None\<rparr>),
               eResource := Some (NewResourceFromBSON i d), eRequest := None\<rparr>), st)"
  using assms by (simp add: doRequestInner_POST_def Let_def responseURL_last Get_def)


lemma valid_id_props:
  assumes "convertIDToBsonID i = Some h"
  shows "i \<noteq> []" "CHR ''/'' \<notin> set i"
proof -
  from assms have l: "length i = 24" and h: "list_all is_hex_char i"
    by (auto simp: convertIDToBsonID_def split: if_splits)
  from l show "i \<noteq> []" by auto
  have "\<not> is_hex_char CHR ''/''" by (simp add: is_hex_char_def)
  with h show "CHR ''/'' \<notin> set i" by (auto simp: list_all_iff)
qed


lemma exampleNewId_valid: "convertIDToBsonID exampleNewId = Some exampleNewId"
  by (simp add: convertIDToBsonID_def exampleNewId_def is_hex_char_def lower_hex_def)


lemma exampleId_current: "current (storeWith (exampleDoc ''1'')) ''Patient'' exampleId = Some (exampleDoc ''1'')"
  by (simp add: storeWith_def)



lemma provenanceTarget_ref:
  "provenanceTarget eh r = Inr t \<Longrightarrow> t = targetReference eh r"
  by (auto simp: provenanceTarget_def targetReference_def split: if_splits)

lemma provenanceTargets_refs:
  "provenanceTargets eh es = Inr ts \<Longrightarrow> ts = map (targetReference eh) (carriedResources es)"
proof (induction es arbitrary: ts)
  case Nil
  then show ?case by (simp add: carriedResources_def List.map_filter_simps)
next
  case (Cons e es)
  show ?case
  proof (cases "eResource e")
    case None
    with Cons show ?thesis by (simp add: carriedResources_def List.map_filter_simps)
  next
    case (Some r)
    with Cons.prems obtain t ts' where t: "provenanceTarget eh r = Inr t"
      and ts': "provenanceTargets eh es = Inr ts'" and eq: "ts = t # ts'"
      by (auto split: sum.splits)
    from Cons.IH[OF ts'] have "ts' = map (targetReference eh) (carriedResources es)" .
    with t eq Some show ?thesis
      by (simp add: carriedResources_def List.map_filter_simps provenanceTarget_ref)
  qed
qed

text \<open>
  Claim C8 (X-Provenance), as the code has it. A non-empty header is refused with a
  \<open>value\<close> failure unless the parser finds \<open>resourceType\<close> equal to \<open>Provenance\<close>, finds no
  \<open>target\<close>, and the header ends with a closing brace. Otherwise the target list holds one
  reference \<open>Type/id[/_history/v]\<close> for every entry that carries a resource once the
  entries have been executed, in entry order; the completed Provenance is stored under a
  fresh id and its location is returned. A batch bundle with the header is refused.
\<close>

theorem provenance_header:
  "(provenanceHeader \<noteq> [] \<and>
      (gErr (jsonGet provenanceHeader ''resourceType'') \<or>
       gValue (jsonGet provenanceHeader ''resourceType'') \<noteq> ''Provenance'' \<or>
       gType (jsonGet provenanceHeader ''target'') \<noteq> NotExist \<or>
       last provenanceHeader \<noteq> CHR ''}'') \<longrightarrow>
      processProvenanceHeader jsonGet newRes eh now newId provenanceHeader entries st
        = ((Some BadValue, None), st))
 \<and> (provenanceHeader \<noteq> [] \<and>
      \<not> gErr (jsonGet provenanceHeader ''resourceType'') \<and>
      gValue (jsonGet provenanceHeader ''resourceType'') = ''Provenance'' \<and>
      gType (jsonGet provenanceHeader ''target'') = NotExist \<and>
      last provenanceHeader = CHR ''}'' \<and>
      provenanceTargets eh entries = Inr ts \<and>
      newRes (butlast provenanceHeader @ '', '' @ [CHR 0x22] @ ''target'' @ [CHR 0x22]
                @ '': ['' @ targetJson ts @ ''] }'') = Some prov \<and>
      PostWithID now st newId prov = (Inr prov', st') \<longrightarrow>
      processProvenanceHeader jsonGet newRes eh now newId provenanceHeader entries st
        = ((None, Some (''Provenance/'' @ newId)), st') \<and>
      ts = map (targetReference eh) (carriedResources entries))
 \<and> (provenanceHeader \<noteq> [] \<longrightarrow> bundleTypeGate ''batch'' provenanceHeader = Some BrokenInvariant)"
proof (intro conjI impI)
  assume "provenanceHeader \<noteq> [] \<and>
      (gErr (jsonGet provenanceHeader ''resourceType'') \<or>
       gValue (jsonGet provenanceHeader ''resourceType'') \<noteq> ''Provenance'' \<or>
       gType (jsonGet provenanceHeader ''target'') \<noteq> NotExist \<or>
       last provenanceHeader \<noteq> CHR ''}'')"
  then show "processProvenanceHeader jsonGet newRes eh now newId provenanceHeader entries st
        = ((Some BadValue, None), st)"
    unfolding processProvenanceHeader_def by auto
next
  assume a: "provenanceHeader \<noteq> [] \<and>
      \<not> gErr (jsonGet provenanceHeader ''resourceType'') \<and>
      gValue (jsonGet provenanceHeader ''resourceType'') = ''Provenance'' \<and>
      gType (jsonGet provenanceHeader ''target'') = NotExist \<and>
      last provenanceHeader = CHR ''}'' \<and>
      provenanceTargets eh entries = Inr ts \<and>
      newRes (butlast provenanceHeader @ '', '' @ [CHR 0x22] @ ''target'' @ [CHR 0x22]
                @ '': ['' @ targetJson ts @ ''] }'') = Some prov \<and>
      PostWithID now st newId prov = (Inr prov', st')"
  then show "processProvenanceHeader jsonGet newRes eh now newId provenanceHeader entries st
        = ((None, Some (''Provenance/'' @ newId)), st')"
    unfolding processProvenanceHeader_def by simp
  from a show "ts = map (targetReference eh) (carriedResources entries)"
    using provenanceTargets_refs by blast
next
  assume "provenanceHeader \<noteq> []"
  then show "bundleTypeGate ''batch'' provenanceHeader = Some BrokenInvariant"
    by (simp add: bundleTypeGate_def)
qed

lemma readEntry_resource:
  "eResource readEntry = Some (NewResourceFromBSON exampleId (exampleDoc ''1''))"
proof -
  have ru: "reqUrl exampleRequest = ''Patient''" by (simp add: exampleRequest_def)
  have sl: "CHR ''/'' \<notin> set exampleId" using valid_id_props(2)[OF exampleId_valid] .
  have c: "current (storeWith (exampleDoc ''1'')) (reqUrl exampleRequest) exampleId = Some (exampleDoc ''1'')"
    using exampleId_current by (simp add: ru)
  show ?thesis
    unfolding readEntry_def
    using doRequestInner_POST_200[OF sl exampleId_valid c, where eh = True and now = exampleNow and e = exampleEntry and base = exampleBase]
    by (simp add: ru)
qed

lemma readEntry_target:
  "provenanceTargets True [readEntry] = Inr [''Patient/5d1f0a2b3c4d5e6f7a8b9c0d/_history/1'']"
  by (simp add: readEntry_resource provenanceTarget_def NewResourceFromBSON_def exampleDoc_def
        exampleId_def)

text \<open>
  The targets are not only written resources: a conditional create that matched an
  existing Patient writes nothing, but its entry carries the existing resource afterwards
  and so that resource is listed as a target.
\<close>

theorem provenance_counterexample:
  "snd (doRequestInner_POST True exampleNow (storeWith (exampleDoc ''1'')) ''200'' []
          (exampleEntry\<lparr>fullUrl := responseURL exampleBase [''Patient'', exampleId]\<rparr>)
          exampleRequest) = storeWith (exampleDoc ''1'') \<and>
   provenanceTargets True
     [snd (fst (doRequestInner_POST True exampleNow (storeWith (exampleDoc ''1'')) ''200'' []
          (exampleEntry\<lparr>fullUrl := responseURL exampleBase [''Patient'', exampleId]\<rparr>)
          exampleRequest))]
     = Inr [''Patient/5d1f0a2b3c4d5e6f7a8b9c0d/_history/1'']"
proof -
  have ru: "reqUrl exampleRequest = ''Patient''" by (simp add: exampleRequest_def)
  have sl: "CHR ''/'' \<notin> set exampleId" using valid_id_props(2)[OF exampleId_valid] .
  have c: "current (storeWith (exampleDoc ''1'')) (reqUrl exampleRequest) exampleId = Some (exampleDoc ''1'')"
    using exampleId_current by (simp add: ru)
  have "snd (doRequestInner_POST True exampleNow (storeWith (exampleDoc ''1'')) ''200'' []
          (exampleEntry\<lparr>fullUrl := responseURL exampleBase [''Patient'', exampleId]\<rparr>)
          exampleRequest) = storeWith (exampleDoc ''1'')"
    using doRequestInner_POST_200[OF sl exampleId_valid c, where eh = True and now = exampleNow and e = exampleEntry and base = exampleBase]
    by (simp add: ru)
  then show ?thesis using readEntry_target by (simp add: readEntry_def)
qed

lemma exampleHeader_props:
  "exampleHeader \<noteq> []" "last exampleHeader = CHR ''}''"
  "\<not> gErr (exampleJsonGet exampleHeader ''resourceType'')"
  "gValue (exampleJsonGet exampleHeader ''resourceType'') = ''Provenance''"
  "gType (exampleJsonGet exampleHeader ''target'') = NotExist"
  by (simp_all add: exampleHeader_def exampleJsonGet_def)

lemma PostWithID_provenance:
  "PostWithID exampleNow (storeWith (exampleDoc ''1'')) exampleNewId (the (exampleNewResource text)) =
     (Inr ((the (exampleNewResource text))\<lparr>rId := exampleNewId, rLastUpdated := exampleNow, rVersionId := ''1''\<rparr>),
      snd (PostWithID exampleNow (storeWith (exampleDoc ''1'')) exampleNewId (the (exampleNewResource text))))"
  by (simp add: PostWithID_def exampleNewId_valid Let_def updateResourceMeta_def Itoa_1
        exampleNewResource_def storeWith_def setCurrent_def emptyStore_def)

theorem provenance_header_witness:
  "''{}'' \<noteq> [] \<and> gErr (exampleJsonGet ''{}'' ''resourceType'') \<and>
   processProvenanceHeader exampleJsonGet exampleNewResource True exampleNow exampleNewId ''{}''
       [readEntry] (storeWith (exampleDoc ''1''))
     = ((Some BadValue, None), storeWith (exampleDoc ''1'')) \<and>
   exampleHeader \<noteq> [] \<and> \<not> gErr (exampleJsonGet exampleHeader ''resourceType'') \<and>
   gValue (exampleJsonGet exampleHeader ''resourceType'') = ''Provenance'' \<and>
   gType (exampleJsonGet exampleHeader ''target'') = NotExist \<and>
   last exampleHeader = CHR ''}'' \<and>
   provenanceTargets True [readEntry] = Inr [''Patient/5d1f0a2b3c4d5e6f7a8b9c0d/_history/1''] \<and>
   fst (processProvenanceHeader exampleJsonGet exampleNewResource True exampleNow exampleNewId
       exampleHeader [readEntry] (storeWith (exampleDoc ''1'')))
     = (None, Some (''Provenance/'' @ exampleNewId)) \<and>
   bundleTypeGate ''batch'' exampleHeader = Some BrokenInvariant"
proof -
  let ?text = "butlast exampleHeader @ '', '' @ [CHR 0x22] @ ''target'' @ [CHR 0x22]
                @ '': ['' @ targetJson [''Patient/5d1f0a2b3c4d5e6f7a8b9c0d/_history/1''] @ ''] }''"
  have g: "gErr (exampleJsonGet ''{}'' ''resourceType'')"
    by (simp add: exampleJsonGet_def exampleHeader_def)
  have nr: "exampleNewResource ?text = Some (the (exampleNewResource ?text))"
    by (simp add: exampleNewResource_def)
  note w1 = provenance_header [where provenanceHeader = "''{}''" and jsonGet = exampleJsonGet
      and newRes = exampleNewResource and eh = True and now = exampleNow and newId = exampleNewId
      and entries = "[readEntry]" and st = "storeWith (exampleDoc ''1'')"]
  note w2 = provenance_header [where provenanceHeader = exampleHeader and jsonGet = exampleJsonGet
      and newRes = exampleNewResource and eh = True and now = exampleNow and newId = exampleNewId
      and entries = "[readEntry]" and st = "storeWith (exampleDoc ''1'')"
      and ts = "[''Patient/5d1f0a2b3c4d5e6f7a8b9c0d/_history/1'']"
      and prov = "the (exampleNewResource ?text)"
      and prov' = "(the (exampleNewResource ?text))\<lparr>rId := exampleNewId, rLastUpdated := exampleNow, rVersionId := ''1''\<rparr>"
      and st' = "snd (PostWithID exampleNow (storeWith (exampleDoc ''1'')) exampleNewId (the (exampleNewResource ?text)))"]
  have r1: "processProvenanceHeader exampleJsonGet exampleNewResource True exampleNow exampleNewId ''{}''
       [readEntry] (storeWith (exampleDoc ''1''))
     = ((Some BadValue, None), storeWith (exampleDoc ''1''))"
    using w1 g by simp
  have r2: "processProvenanceHeader exampleJsonGet exampleNewResource True exampleNow exampleNewId
       exampleHeader [readEntry] (storeWith (exampleDoc ''1''))
     = ((None, Some (''Provenance/'' @ exampleNewId)),
        snd (PostWithID exampleNow (storeWith (exampleDoc ''1'')) exampleNewId (the (exampleNewResource ?text))))"
    using w2 exampleHeader_props readEntry_target nr PostWithID_provenance[of ?text] by blast
  have r3: "bundleTypeGate ''batch'' exampleHeader = Some BrokenInvariant"
    using w2 exampleHeader_props(1) by blast
  show ?thesis using g r1 r2 r3 exampleHeader_props readEntry_target by simp
qed

section \<open>Proofs: history\<close>





lemma asPost_method [simp]: "eRequest e \<noteq> None \<Longrightarrow> entryMethod (asPost rt e) = Some ''POST''"
  by (auto simp: asPost_def entryMethod_def)

lemma asPost_resource [simp]: "eResource (asPost rt e) = eResource e"
  by (simp add: asPost_def)


























section \<open>Proofs: derived reference fields\<close>














section \<open>Proofs: what the egress shows\<close>






lemma clean_leaf [simp]: "clean (TString s)" "clean (TNumber s)" "clean (TBool b)" "clean TNull"
  "clean (TRaw s) = numberToken s"
  by (simp_all add: clean_def)















section \<open>Proofs: the round trip\<close>

lemma processMembers_append:
  "processMembers env (xs @ ys) =
     (case processMembers env xs of
        Inl e \<Rightarrow> Inl e
      | Inr a \<Rightarrow> (case processMembers env ys of Inl e \<Rightarrow> Inl e | Inr b \<Rightarrow> Inr (a @ b)))"
proof (induct xs)
  case Nil
  show ?case by (simp split: sum.split)
next
  case (Cons m xs)
  obtain k v where m: "m = (k, v)" by (cases m)
  show ?case unfolding m
    by (simp add: Cons split: sum.split)
qed

lemma processMembers_skipped:
  "(\<forall>m \<in> set xs. skipped (fst m)) \<Longrightarrow> processMembers env (xs @ ys) = processMembers env ys"
  by (induct xs) auto

lemma scanDocument_none:
  "processMembers env d = Inr ts \<Longrightarrow> scanKeys d \<Longrightarrow>
   scanDocument env d oldTime [] otherFields = Inr None"
proof (induct d arbitrary: ts oldTime otherFields)
  case Nil
  show ?case by (simp split: option.split)
next
  case (Cons m d)
  obtain k v where m: "m = (k, v)" by (cases m)
  have keys: "k \<noteq> ''__strNum''" "k \<noteq> ''__strDate''" "k \<noteq> ''precision''" "scanKeys d"
    using Cons.prems(2) by (auto simp add: scanKeys_def m)
  have ns: "\<not> skipped ''time''" by (simp add: skipped_def docIncluded_def HasPrefix_def)
  obtain ts' where rest: "processMembers env d = Inr ts'"
    using Cons.prems(1) unfolding m by (auto split: if_splits sum.splits)
  note IH = Cons.hyps[OF rest keys(4)]
  show ?case
  proof (cases "k = ''time''")
    case True
    have "processValue env v \<noteq> Inl ErrEgress \<or> True" by simp
    obtain t where "processValue env v = Inr t"
      using Cons.prems(1) ns unfolding m True by (auto split: if_splits sum.splits)
    then show ?thesis unfolding m True
      by (cases v) (auto simp add: IH split: option.splits)
  next
    case False
    then show ?thesis unfolding m using keys by (simp add: IH)
  qed
qed


lemma skipped_literals:
  "\<not> skipped ''_id''" "\<not> skipped ''__id''" "\<not> skipped ''url''" "\<not> skipped ''__from''"
  "\<not> skipped ''__to''" "\<not> skipped ''__num''"
  "skipped ''reference__id''" "skipped ''reference__type''" "skipped ''reference__external''"
  by (simp_all add: skipped_def docIncluded_def HasPrefix_def)

lemma date_round_trip:
  "convertDateValue env s = Inr b \<Longrightarrow> processValue env b = Inr (TString s)"
  by (auto simp add: convertDateValue_def split: option.splits)

lemma decimal_round_trip:
  "atDecimal pos \<Longrightarrow> convertNumberValue env pos s = Inr b \<Longrightarrow> processValue env b = Inr (TRaw s)"
  by (auto simp add: convertNumberValue_def split: option.splits if_splits)

lemma integer_round_trip:
  assumes "\<not> atDecimal pos" "CHR ''.'' \<notin> set s" "convertNumberValue env pos s = Inr b"
  shows "\<exists>v. processValue env b = Inr (TNumber (Itoa v)) \<and> json_eq (JNumber s) (JNumber (Itoa v))"
proof -
  obtain v where v: "GetInt s = Some v" "b = BInt v"
    using assms by (auto simp add: convertNumberValue_def split: option.splits)
  have a: "Atoi s = (v, True)"
    using v(1) by (auto simp add: GetInt_def split: if_splits prod.splits bool.splits)
  have "Atoi (Itoa v) = (v, True)"
    using Atoi_range[OF a] by (simp add: Atoi_Itoa)
  with a have "json_eq (JNumber s) (JNumber (Itoa v))" by (rule eq_integer)
  then show ?thesis by (auto simp add: v(2))
qed

lemma addReference_empty:
  assumes "addReference env Map.empty out pos key v = Inr out1"
  shows "\<exists>derived. out1 = out @ derived \<and> (\<forall>m \<in> set derived. skipped (fst m))
           \<and> (key \<noteq> ''reference'' \<longrightarrow> derived = [])"
proof (cases "atReference pos \<and> key = ''reference''")
  case False
  then show ?thesis using assms by (auto simp add: addReference_def)
next
  case True
  then obtain r derived where r: "referenceFields env pos r = Inr derived" "out1 = out @ derived"
    using assms by (auto simp add: addReference_def split: option.splits sum.splits)
  have "\<forall>m \<in> set derived. skipped (fst m)"
    using r(1)
    by (auto simp add: referenceFields_def Let_def skipped_literals split: if_splits option.splits)
  then show ?thesis using r(2) True by auto
qed

lemma list_all2_sameMember:
  "list_all2 sameMember xs ts \<Longrightarrow>
   wellFormedMembers ts \<and>
   list_all2 (\<lambda>m n. fst m = fst n \<and> json_eq (snd m) (snd n)) xs (readBackMembers ts)"
proof (induct rule: list_all2_induct)
  case Nil
  show ?case by simp
next
  case (Cons x xs t ts)
  obtain k u where t: "t = (k, u)" by (cases t)
  show ?case using Cons unfolding t by (auto simp add: sameMember_def)
qed

lemma list_all2_sameValue:
  "list_all2 sameValue xs ts \<Longrightarrow>
   wellFormedElements ts \<and> list_all2 json_eq xs (readBackElements ts)"
  by (induct rule: list_all2_induct) (auto simp add: sameValue_def)

lemma reordered_refl: "reordered xs xs"
  by (induct xs) (auto intro: reordered.intros)

lemma reordered_middle: "reordered (us @ x # vs) (x # us @ vs)"
proof (induct us)
  case Nil
  show ?case by (simp add: reordered_refl)
next
  case (Cons u us)
  have "reordered (u # us @ x # vs) (u # x # us @ vs)" using Cons by (rule reordered_Cons)
  moreover have "reordered (u # x # us @ vs) (x # u # us @ vs)" by (rule reordered_swap)
  ultimately show ?case by (auto intro: reordered_trans)
qed

lemma reordered_insert:
  assumes "reordered (us @ vs) ms"
  shows "reordered (us @ x # vs) (x # ms)"
  using reordered_middle[of us x vs] reordered_Cons[OF assms, of x] by (rule reordered_trans)

lemma one_url:
  assumes "length (filter (\<lambda>m. fst m = ''url'') ms) = 1" "map_of ms ''url'' = Some u"
  shows "reordered ((''url'', u) # filter (\<lambda>m. fst m \<noteq> ''url'') ms) ms"
  using assms
proof (induct ms)
  case Nil
  then show ?case by simp
next
  case (Cons m ms)
  obtain k v where m: "m = (k, v)" by (cases m)
  show ?case
  proof (cases "k = ''url''")
    case True
    then have "filter (\<lambda>m. fst m = ''url'') ms = []" "v = u"
      using Cons.prems by (simp_all add: m)
    then have "filter (\<lambda>m. fst m \<noteq> ''url'') ms = ms"
      by (simp add: filter_empty_conv filter_id_conv)
    then show ?thesis using True \<open>v = u\<close> by (simp add: m reordered_refl)
  next
    case False
    then have "reordered ((''url'', u) # filter (\<lambda>m. fst m \<noteq> ''url'') ms) ms"
      using Cons by (simp add: m)
    then have "reordered (m # (''url'', u) # filter (\<lambda>m. fst m \<noteq> ''url'') ms) (m # ms)"
      by (rule reordered_Cons)
    moreover have "reordered ((''url'', u) # m # filter (\<lambda>m. fst m \<noteq> ''url'') ms)
                     (m # (''url'', u) # filter (\<lambda>m. fst m \<noteq> ''url'') ms)"
      by (rule reordered_swap)
    ultimately show ?thesis using False by (auto simp add: m intro: reordered_trans)
  qed
qed

lemma document_shown:
  assumes "processMembers env d = Inr ts" "scanKeys d" "firstShown d"
  shows "processDocument env d = Inr (TObject False ts)"
proof -
  have "leadingSeparator d = False"
    using assms(3) by (cases d) (auto simp add: leadingSeparator_def firstShown_def)
  then show ?thesis
    using scanDocument_none[OF assms(1,2), of None False] assms(1) by simp
qed

lemma object_same:
  assumes "reordered (us @ vs) ms" "list_all2 sameMember us tpre" "list_all2 sameMember vs tpost"
  shows "sameValue (JObject ms) (TObject False (tpre @ tpost))"
proof -
  have "list_all2 sameMember (us @ vs) (tpre @ tpost)"
    using assms(2,3) by (rule list_all2_appendI)
  from list_all2_sameMember[OF this]
  have w: "wellFormedMembers (tpre @ tpost)"
    and l: "list_all2 (\<lambda>m n. fst m = fst n \<and> json_eq (snd m) (snd n)) (us @ vs)
              (readBackMembers (tpre @ tpost))"
    by simp_all
  have "json_eq (JObject ms) (JObject (readBackMembers (tpre @ tpost)))"
    using assms(1) l by (rule eq_object)
  then show ?thesis using w by (simp add: sameValue_def)
qed

lemma array_same:
  assumes "list_all2 sameValue xs ts"
  shows "sameValue (JArray xs) (TArray ts)"
  using list_all2_sameValue[OF assms] by (auto simp add: sameValue_def intro: eq_array)

lemma membersResult_document:
  assumes "membersResult env skipUrl ms [] d"
  shows "\<exists>ts us. processMembers env d = Inr ts \<and> scanKeys d \<and> firstShown d
            \<and> reordered us (if skipUrl then filter (\<lambda>m. fst m \<noteq> ''url'') ms else ms)
            \<and> list_all2 sameMember us ts"
proof -
  obtain pre post tpre tpost us vs where r:
    "d = pre @ post" "\<forall>m \<in> set pre. fst m = ''_id''" "firstShown post" "scanKeys post"
    "processMembers env pre = Inr tpre" "processMembers env post = Inr tpost"
    "reordered (us @ vs) (if skipUrl then filter (\<lambda>m. fst m \<noteq> ''url'') ms else ms)"
    "list_all2 sameMember us tpre" "list_all2 sameMember vs tpost"
    using assms unfolding membersResult_def by auto
  have 1: "processMembers env d = Inr (tpre @ tpost)"
    unfolding r(1) by (simp add: processMembers_append r(5,6))
  have 2: "scanKeys d" using r(2,4) by (auto simp add: scanKeys_def r(1))
  have 3: "firstShown d"
    using r(2,3) by (cases pre) (auto simp add: firstShown_def r(1) skipped_literals)
  have 4: "list_all2 sameMember (us @ vs) (tpre @ tpost)"
    using r(8,9) by (rule list_all2_appendI)
  show ?thesis using 1 2 3 4 r(7) by blast
qed


lemma skipped_not_scanned:
  "skipped k \<Longrightarrow> k \<notin> {''__strNum'', ''__strDate'', ''precision''}"
  by (auto simp add: skipped_def docIncluded_def HasPrefix_def)

lemma member_step:
  assumes key: "plainKey key"
    and t: "(if key = ''extension'' \<or> key = ''modifierExtension''
             then processExtensionsArray env b else processValue env b) = Inr t"
    and same: "sameValue v t"
    and ref: "addReference env Map.empty (storeElement out key b) pos key v = Inr out1"
    and rest: "membersResult env skipUrl rest out1 out'"
    and nu: "\<not> (skipUrl \<and> key = ''url'')"
  shows "membersResult env skipUrl ((key, v) # rest) out out'"
proof -
  obtain derived where d: "out1 = storeElement out key b @ derived"
      "\<forall>m \<in> set derived. skipped (fst m)" "key \<noteq> ''reference'' \<longrightarrow> derived = []"
    using addReference_empty[OF ref] by blast
  obtain pre post tpre tpost us vs where r:
    "out' = pre @ out1 @ post" "\<forall>m \<in> set pre. fst m = ''_id''" "firstShown post" "scanKeys post"
    "processMembers env pre = Inr tpre" "processMembers env post = Inr tpost"
    "reordered (us @ vs) (if skipUrl then filter (\<lambda>m. fst m \<noteq> ''url'') rest else rest)"
    "list_all2 sameMember us tpre" "list_all2 sameMember vs tpost"
    using rest unfolding membersResult_def by auto
  have m: "sameMember (key, v) (key, t)"
    using same by (simp add: sameMember_def sameValue_def)
  have e: "(if skipUrl then filter (\<lambda>m. fst m \<noteq> ''url'') ((key, v) # rest) else (key, v) # rest)
             = (key, v) # (if skipUrl then filter (\<lambda>m. fst m \<noteq> ''url'') rest else rest)"
    using nu by auto
  have ms: "reordered ((us @ [(key, v)]) @ vs)
              (if skipUrl then filter (\<lambda>m. fst m \<noteq> ''url'') ((key, v) # rest) else (key, v) # rest)"
     "reordered (us @ (key, v) # vs)
              (if skipUrl then filter (\<lambda>m. fst m \<noteq> ''url'') ((key, v) # rest) else (key, v) # rest)"
    unfolding e using reordered_insert[OF r(7), of "(key, v)"] by simp_all
  show ?thesis
  proof (cases "key = ''id''")
    case True
    have o: "out' = (pre @ [(''_id'', b)]) @ out @ post"
      using d(1,3) r(1) True by (simp add: storeElement_def)
    have p: "processMembers env (pre @ [(''_id'', b)]) = Inr (tpre @ [(key, t)])"
      using t True by (simp add: processMembers_append r(5) skipped_literals jsonKey_def)
    have l: "list_all2 sameMember (us @ [(key, v)]) (tpre @ [(key, t)])"
      using r(8) m by (simp add: list_all2_appendI)
    have a: "\<forall>m \<in> set (pre @ [(''_id'', b)]). fst m = ''_id''" using r(2) by simp
    show ?thesis unfolding membersResult_def
      by (intro exI[of _ "pre @ [(''_id'', b)]"] exI[of _ post]
          exI[of _ "tpre @ [(key, t)]"] exI[of _ tpost] exI[of _ "us @ [(key, v)]"] exI[of _ vs]
          conjI o a r(3) r(4) p r(6) ms(1) l r(9))
  next
    case False
    define sk where "sk = (if key = ''_id'' then ''__id'' else key)"
    have sk: "\<not> skipped sk" "sk \<notin> {''__strNum'', ''__strDate'', ''precision''}"
        "(sk = ''extension'' \<or> sk = ''modifierExtension'') = (key = ''extension'' \<or> key = ''modifierExtension'')"
        "jsonKey sk = key"
      using key by (auto simp add: sk_def plainKey_def skipped_literals jsonKey_def)
    have o: "out' = pre @ out @ ((sk, b) # derived @ post)"
      using d(1) r(1) False by (simp add: storeElement_def sk_def)
    have dp: "processMembers env (derived @ post) = Inr tpost"
      using processMembers_skipped[OF d(2), of env post] r(6) by simp
    have "processMembers env ((sk, b) # derived @ post) = Inr ((key, t) # tpost)"
    proof (cases "key = ''extension'' \<or> key = ''modifierExtension''")
      case True
      then have e: "sk = ''extension'' \<or> sk = ''modifierExtension''" using sk(3) by simp
      have "processExtensionsArray env b = Inr t" using t True by simp
      then show ?thesis using e sk(1) dp True
        by (auto simp add: sk_def)
    next
      case False
      then have e: "\<not> (sk = ''extension'' \<or> sk = ''modifierExtension'')" using sk(3) by simp
      have "processValue env b = Inr t" using t False by simp
      then show ?thesis using e sk(1) dp sk(4) by simp
    qed
    moreover have "firstShown ((sk, b) # derived @ post)"
      using sk(1) by (simp add: firstShown_def)
    moreover have "scanKeys ((sk, b) # derived @ post)"
      using sk(2) d(2) r(4) skipped_not_scanned by (auto simp add: scanKeys_def)
    moreover have "list_all2 sameMember ((key, v) # vs) ((key, t) # tpost)"
      using r(9) m by simp
    ultimately have f: "processMembers env ((sk, b) # derived @ post) = Inr ((key, t) # tpost)"
      "firstShown ((sk, b) # derived @ post)" "scanKeys ((sk, b) # derived @ post)"
      "list_all2 sameMember ((key, v) # vs) ((key, t) # tpost)"
      by blast+
    show ?thesis unfolding membersResult_def
      by (intro exI[of _ pre] exI[of _ "(sk, b) # derived @ post"]
          exI[of _ tpre] exI[of _ "(key, t) # tpost"] exI[of _ us] exI[of _ "(key, v) # vs"]
          conjI o r(2) f(2) f(3) r(5) f(1) ms(2) r(8) f(4))
  qed
qed


lemma ingest_egress:
  "refsMap = Map.empty \<longrightarrow>
     (plainValue env pos j \<longrightarrow>
        (\<forall>b. convertValue env refsMap pos j = Inr b \<longrightarrow>
           (\<exists>t. processValue env b = Inr t \<and> sameValue j t)))
     \<and> ((case j of JNull \<Rightarrow> True
                  | JArray elems \<Rightarrow> atExtension pos \<and> plainExtensions env pos elems
                  | _ \<Rightarrow> False) \<longrightarrow>
        (\<forall>b. convertValue env refsMap pos j = Inr b \<longrightarrow>
           (\<exists>t. processExtensionsArray env b = Inr t \<and> sameValue j t)))"
  "refsMap = Map.empty \<longrightarrow> plainMembers env pos2 skipUrl ms \<longrightarrow>
     (\<forall>out'. addMembers env refsMap pos2 skipUrl ms out = Inr out' \<longrightarrow>
        membersResult env skipUrl ms out out')"
  "refsMap = Map.empty \<longrightarrow> plainElements env pos3 xs \<longrightarrow>
     (\<forall>bs. addToBSONarray env refsMap pos3 xs = Inr bs \<longrightarrow>
        (\<exists>ts. processArray env bs = Inr ts \<and> list_all2 sameValue xs ts))"
  "refsMap = Map.empty \<longrightarrow> plainExtensions env pos4 ys \<longrightarrow>
     (\<forall>bs. convertExtensionArray env refsMap pos4 ys = Inr bs \<longrightarrow>
        (\<exists>ts. processExtensions env bs = Inr ts \<and> list_all2 sameValue ys ts))"
proof (induct env refsMap pos j and env refsMap pos2 skipUrl ms out and env refsMap pos3 xs
    and env refsMap pos4 ys
    rule: convertValue_addMembers_addToBSONarray_convertExtensionArray.induct)
  case (1 env refsMap pos members)
  show ?case
  proof (intro impI conjI allI)
    fix b
    assume rm: "refsMap = Map.empty" and pl: "plainValue env pos (JObject members)"
      and cv: "convertValue env refsMap pos (JObject members) = Inr b"
    obtain d where d: "addMembers env refsMap pos False members [] = Inr d" "b = BDoc d"
      using cv by (auto split: sum.splits)
    have "membersResult env False members [] d"
      using 1 rm pl d(1) by simp
    from membersResult_document[OF this] obtain ts us where r:
      "processMembers env d = Inr ts" "scanKeys d" "firstShown d" "reordered us members"
      "list_all2 sameMember us ts"
      by auto
    have "sameValue (JObject members) (TObject False ([] @ ts))"
      using object_same[of us "[]" members ts "[]"] r(4,5) by simp
    then show "\<exists>t. processValue env b = Inr t \<and> sameValue (JObject members) t"
      using document_shown[OF r(1,2,3)] by (simp add: d(2) del: processDocument.simps)
  qed simp
next
  case (2 env refsMap pos elems)
  show ?case
  proof (intro impI conjI allI)
    fix b
    assume rm: "refsMap = Map.empty" and pl: "plainValue env pos (JArray elems)"
      and cv: "convertValue env refsMap pos (JArray elems) = Inr b"
    have ne: "\<not> atExtension pos" and pe: "plainElements env pos elems" using pl by simp_all
    obtain bs where bs: "addToBSONarray env refsMap pos elems = Inr bs" "b = BArr bs"
      using cv ne by (auto split: sum.splits)
    obtain ts where ts: "processArray env bs = Inr ts" "list_all2 sameValue elems ts"
      using 2(2)[OF ne] rm pe bs(1) by blast
    show "\<exists>t. processValue env b = Inr t \<and> sameValue (JArray elems) t"
      using ts(1) array_same[OF ts(2)] by (simp add: bs(2))
  next
    fix b
    assume rm: "refsMap = Map.empty"
      and pl: "case JArray elems of JNull \<Rightarrow> True
               | JArray elems \<Rightarrow> atExtension pos \<and> plainExtensions env pos elems | _ \<Rightarrow> False"
      and cv: "convertValue env refsMap pos (JArray elems) = Inr b"
    have ae: "atExtension pos" and pe: "plainExtensions env pos elems" using pl by simp_all
    obtain bs where bs: "convertExtensionArray env refsMap pos elems = Inr bs" "b = BArr bs"
      using cv ae by (auto split: sum.splits)
    obtain ts where ts: "processExtensions env bs = Inr ts" "list_all2 sameValue elems ts"
      using 2(1)[OF ae] rm pe bs(1) by blast
    show "\<exists>t. processExtensionsArray env b = Inr t \<and> sameValue (JArray elems) t"
      using ts(1) array_same[OF ts(2)] by (simp add: bs(2))
  qed
next
  case (3 env refsMap pos s)
  show ?case
  proof (intro impI conjI allI)
    fix b
    assume pl: "plainValue env pos (JString s)"
      and cv: "convertValue env refsMap pos (JString s) = Inr b"
    have same: "sameValue (JString s) (TString s)" by (simp add: sameValue_def eq_string)
    show "\<exists>t. processValue env b = Inr t \<and> sameValue (JString s) t"
    proof (cases "atDate pos")
      case True
      then have "convertDateValue env s = Inr b" using cv by simp
      from date_round_trip[OF this] same show ?thesis by blast
    next
      case False
      show ?thesis
      proof (cases "atInstant pos")
        case True
        then obtain t where "parseInstant env s = Some t" "b = BTime t"
          using cv False by (auto simp add: convertInstant_def split: option.splits)
        then have "processValue env b = Inr (TString s)" using pl False True by simp
        then show ?thesis using same by blast
      next
        case no: False
        then have "b = BStr s" using cv False by simp
        then show ?thesis using same by simp
      qed
    qed
  qed simp
next
  case (4 env refsMap pos)
  show ?case by (simp add: sameValue_def eq_null)
next
  case (5 env refsMap pos boo)
  show ?case by (simp add: sameValue_def eq_boolean)
next
  case (6 env refsMap pos s)
  show ?case
  proof (intro impI conjI allI)
    fix b
    assume pl: "plainValue env pos (JNumber s)"
      and cv: "convertValue env refsMap pos (JNumber s) = Inr b"
    show "\<exists>t. processValue env b = Inr t \<and> sameValue (JNumber s) t"
    proof (cases "atDecimal pos")
      case True
      have "processValue env b = Inr (TRaw s)"
        using decimal_round_trip[OF True] cv by simp
      then show ?thesis by (simp add: sameValue_def eq_number)
    next
      case False
      then have nd: "CHR ''.'' \<notin> set s" using pl by simp
      have cn: "convertNumberValue env pos s = Inr b" using cv by simp
      obtain v where v: "processValue env b = Inr (TNumber (Itoa v))"
          "json_eq (JNumber s) (JNumber (Itoa v))"
        using integer_round_trip[OF False nd cn] by blast
      have "sameValue (JNumber s) (TNumber (Itoa v))" using v(2) by (simp add: sameValue_def)
      with v(1) show ?thesis by blast
    qed
  qed simp
next
  case (7 env refsMap pos skipUrl out)
  have "membersResult env skipUrl [] out out"
    unfolding membersResult_def
    by (intro exI[of _ "[]"]) (simp add: firstShown_def scanKeys_def reordered_Nil)
  then show ?case by simp
next
  case (8 env refsMap pos skipUrl key v rest out)
  show ?case
  proof (intro impI allI)
    fix out'
    assume rm: "refsMap = Map.empty" and pl: "plainMembers env pos skipUrl ((key, v) # rest)"
      and run: "addMembers env refsMap pos skipUrl ((key, v) # rest) out = Inr out'"
    show "membersResult env skipUrl ((key, v) # rest) out out'"
    proof (cases "skipUrl \<and> key = ''url''")
      case True
      have "membersResult env skipUrl rest out out'"
        using 8(1)[OF True] rm pl run True by simp
      then show ?thesis using True by (simp add: membersResult_def)
    next
      case False
      obtain nextPos where np: "downTo env pos key v = Inr nextPos"
        using run False by (auto split: sum.splits)
      obtain b where b: "convertValue env refsMap nextPos v = Inr b"
        using run False np by (auto split: sum.splits)
      obtain out1 where o1: "addReference env refsMap (storeElement out key b) pos key v = Inr out1"
        and r: "addMembers env refsMap pos skipUrl rest out1 = Inr out'"
        using run False np b by (auto split: sum.splits)
      have pk: "plainKey key" and pr: "plainMembers env pos skipUrl rest"
        and pv: "if key = ''extension'' \<or> key = ''modifierExtension''
                 then (case v of JNull \<Rightarrow> True
                       | JArray elems \<Rightarrow> atExtension nextPos \<and> plainExtensions env nextPos elems
                       | _ \<Rightarrow> False)
                 else plainValue env nextPos v"
        using pl False np by auto
      note IHv = 8(2)[OF False np]
      have "\<exists>t. (if key = ''extension'' \<or> key = ''modifierExtension''
                   then processExtensionsArray env b else processValue env b) = Inr t
                \<and> sameValue v t"
        using IHv rm pv b by (auto split: if_splits)
      then obtain t where t: "(if key = ''extension'' \<or> key = ''modifierExtension''
                   then processExtensionsArray env b else processValue env b) = Inr t"
          "sameValue v t" by blast
      have "membersResult env skipUrl rest out1 out'"
        using 8(3)[OF False np b o1] rm pr r by simp
      with pk t o1 show ?thesis using False unfolding rm by (rule member_step)
    qed
  qed
next
  case (9 env refsMap pos)
  show ?case by simp
next
  case (10 env refsMap pos v rest)
  show ?case
  proof (intro impI allI)
    fix bs
    assume rm: "refsMap = Map.empty" and pl: "plainElements env pos (v # rest)"
      and run: "addToBSONarray env refsMap pos (v # rest) = Inr bs"
    obtain nextPos where np: "intoArray env pos v = Inr nextPos"
      using run by (auto split: sum.splits)
    obtain b where b: "convertValue env refsMap nextPos v = Inr b"
      using run np by (auto split: sum.splits)
    obtain bs' where bs': "addToBSONarray env refsMap pos rest = Inr bs'" "bs = b # bs'"
      using run np b by (auto split: sum.splits)
    have pv: "plainValue env nextPos v" and pr: "plainElements env pos rest"
      using pl np by simp_all
    obtain t where t: "processValue env b = Inr t" "sameValue v t"
      using 10(1)[OF np] rm pv b by blast
    obtain ts where ts: "processArray env bs' = Inr ts" "list_all2 sameValue rest ts"
      using 10(2)[OF np b] rm pr bs'(1) by blast
    show "\<exists>ts. processArray env bs = Inr ts \<and> list_all2 sameValue (v # rest) ts"
      using t ts by (simp add: bs'(2))
  qed
next
  case (11 env refsMap pos)
  show ?case by simp
next
  case (12 env refsMap pos rest)
  show ?case by simp
next
  case (13 env refsMap pos members rest)
  show ?case
  proof (intro impI allI)
    fix bs
    assume rm: "refsMap = Map.empty" and pl: "plainExtensions env pos (JObject members # rest)"
      and run: "convertExtensionArray env refsMap pos (JObject members # rest) = Inr bs"
    obtain url where url: "GetString (JObject members) ''url'' = Some url"
      using run by (auto split: option.splits)
    obtain child where child: "addMembers env refsMap pos True members [] = Inr child"
      using run url by (auto split: sum.splits)
    obtain bs' where bs': "convertExtensionArray env refsMap pos rest = Inr bs'"
      "bs = BDoc [(url, BDoc child)] # bs'"
      using run url child by (auto split: sum.splits)
    have one: "length (filter (\<lambda>m. fst m = ''url'') members) = 1"
      and pm: "plainMembers env pos True members" and pr: "plainExtensions env pos rest"
      using pl by simp_all
    have "membersResult env True members [] child"
      using 13(1)[OF url] rm pm child by simp
    from membersResult_document[OF this] obtain ts us where r:
      "processMembers env child = Inr ts" "scanKeys child" "firstShown child"
      "reordered us (filter (\<lambda>m. fst m \<noteq> ''url'') members)"
      "list_all2 sameMember us ts"
      by auto
    let ?d = "(''url'', BStr url) # child"
    have 1: "processMembers env ?d = Inr ((''url'', TString url) # ts)"
      using r(1) by (simp add: skipped_literals jsonKey_def)
    have 2: "scanKeys ?d" using r(2) by (simp add: scanKeys_def)
    have 3: "firstShown ?d" by (simp add: firstShown_def skipped_literals)
    have doc: "processDocument env ?d = Inr (TObject False ((''url'', TString url) # ts))"
      using 1 2 3 by (rule document_shown)
    have mo: "map_of members ''url'' = Some (JString url)"
      using url by (auto simp add: GetString_def split: option.splits json.splits)
    have ms: "reordered ((''url'', JString url) # us) members"
      using reordered_Cons[OF r(4), of "(''url'', JString url)"] one_url[OF one mo]
      by (rule reordered_trans)
    have "sameMember (''url'', JString url) (''url'', TString url)"
      by (simp add: sameMember_def eq_string)
    then have "list_all2 sameMember ((''url'', JString url) # us) ((''url'', TString url) # ts)"
      using r(5) by simp
    from object_same[OF _ this, of "[]" members "[]"] ms
    have same: "sameValue (JObject members) (TObject False ((''url'', TString url) # ts))"
      by simp
    obtain ts' where ts': "processExtensions env bs' = Inr ts'" "list_all2 sameValue rest ts'"
      using 13(2)[OF url child] rm pr bs'(1) by blast
    show "\<exists>ts. processExtensions env bs = Inr ts \<and> list_all2 sameValue (JObject members # rest) ts"
      using doc same ts' by (simp add: bs'(2) del: processDocument.simps)
  qed
qed simp_all


lemma addReference_keys:
  assumes "addReference env Map.empty out pos key v = Inr out1"
  shows "\<exists>derived. out1 = out @ derived
           \<and> (\<forall>m \<in> set derived. fst m \<in> {''reference__id'', ''reference__type'', ''reference__external''})"
proof (cases "atReference pos \<and> key = ''reference''")
  case False
  then show ?thesis using assms by (auto simp add: addReference_def)
next
  case True
  then obtain r derived where r: "referenceFields env pos r = Inr derived" "out1 = out @ derived"
    using assms by (auto simp add: addReference_def split: option.splits sum.splits)
  have "\<forall>m \<in> set derived. fst m \<in> {''reference__id'', ''reference__type'', ''reference__external''}"
    using r(1)
    by (auto simp add: referenceFields_def Let_def split: if_splits option.splits)
  then show ?thesis using r(2) by auto
qed

lemma rootKeys_literals:
  "rootKeys [(''_id'', b)]" "rootKeys [(''__id'', b)]"
  by (simp_all add: rootKeys_def docIncluded_def HasPrefix_def)

lemma rootKeys_append: "rootKeys (xs @ ys) \<longleftrightarrow> rootKeys xs \<and> rootKeys ys"
  by (auto simp add: rootKeys_def)

lemma rootKeys_Cons: "rootKeys (x # ys) \<longleftrightarrow> rootKeys [x] \<and> rootKeys ys"
  by (auto simp add: rootKeys_def)

lemma rootKeys_derived:
  "\<forall>m \<in> set derived. fst m \<in> {''reference__id'', ''reference__type'', ''reference__external''}
   \<Longrightarrow> rootKeys derived"
  by (auto simp add: rootKeys_def docIncluded_def HasPrefix_def)

lemma rootKeys_plain: "plainKey key \<Longrightarrow> rootKeys [(key, b)]"
  by (simp add: rootKeys_def plainKey_def skipped_def)

lemma addMembers_rootKeys:
  "addMembers env Map.empty pos False ms out = Inr out' \<Longrightarrow> plainMembers env pos False ms \<Longrightarrow>
   rootKeys out \<Longrightarrow> rootKeys out'"
proof (induct ms arbitrary: out)
  case Nil
  then show ?case by simp
next
  case (Cons m ms)
  obtain key v where m: "m = (key, v)" by (cases m)
  obtain nextPos where np: "downTo env pos key v = Inr nextPos"
    using Cons.prems(1) unfolding m by (auto split: sum.splits)
  obtain b where b: "convertValue env Map.empty nextPos v = Inr b"
    using Cons.prems(1) np unfolding m by (auto split: sum.splits)
  obtain out1 where o1: "addReference env Map.empty (storeElement out key b) pos key v = Inr out1"
    and r: "addMembers env Map.empty pos False ms out1 = Inr out'"
    using Cons.prems(1) np b unfolding m by (auto split: sum.splits)
  have pk: "plainKey key" and pr: "plainMembers env pos False ms"
    using Cons.prems(2) unfolding m by simp_all
  obtain derived where d: "out1 = storeElement out key b @ derived"
    "\<forall>m \<in> set derived. fst m \<in> {''reference__id'', ''reference__type'', ''reference__external''}"
    using addReference_keys[OF o1] by blast
  have "rootKeys (storeElement out key b)"
    using Cons.prems(3) rootKeys_plain[OF pk, of b] rootKeys_literals[of b]
    by (auto simp add: storeElement_def rootKeys_append rootKeys_Cons[of _ out])
  then have "rootKeys out1"
    using rootKeys_derived[OF d(2)] by (simp add: d(1) rootKeys_append)
  from Cons.hyps[OF r pr this] show ?case .
qed

lemma ciphertextOf_rootKeys: "rootKeys d \<Longrightarrow> ciphertextOf d c = Inr c"
proof (induct d)
  case Nil
  show ?case by simp
next
  case (Cons m d)
  obtain k v where m: "m = (k, v)" by (cases m)
  show ?case using Cons unfolding m by (simp add: rootKeys_def)
qed

lemma includedOfDocument_rootKeys: "rootKeys d \<Longrightarrow> includedOfDocument env d = Inr (Some [])"
proof (induct d)
  case Nil
  show ?case by simp
next
  case (Cons m d)
  obtain k v where m: "m = (k, v)" by (cases m)
  show ?case using Cons unfolding m by (simp add: rootKeys_def)
qed

text \<open>
  Claim C2. Let the ingest, with no reference rewriting, accept a resource that is plain
  (\<open>plainResource\<close>). Then the egress of the stored document succeeds, returns no included
  documents, and writes JSON that reads back as the original document: the same members
  in every object up to their order, equal strings, dates, booleans, nulls and decimal
  texts, and integers of equal value. And every number at a decimal position that the
  ingest accepts is stored as \<open>{__from, __to, __num, __strNum}\<close> with \<open>__strNum\<close> its text, and
  is written as that text.
\<close>

theorem json_round_trip:
  "(ConvertJsonToGoFhirBSON env j whatToEncrypt Map.empty = Inr d \<longrightarrow> plainResource env j \<longrightarrow>
      (\<exists>t. ConvertGoFhirBSONToJSON env d = Inr (t, []) \<and> wellFormed t \<and> json_eq j (readBack t)))
   \<and> (atDecimal pos \<longrightarrow> convertNumberValue env pos s = Inr b \<longrightarrow>
      (\<exists>lo hi n. b = BDoc [(''__from'', lo), (''__to'', hi), (''__num'', n), (''__strNum'', BStr s)])
      \<and> processValue env b = Inr (TRaw s))"
proof (intro conjI impI)
  assume conv: "ConvertJsonToGoFhirBSON env j whatToEncrypt Map.empty = Inr d"
    and plain: "plainResource env j"
  obtain rt ms where j: "GetString j ''resourceType'' = Some rt" "j = JObject ms"
    using plain by (auto simp add: plainResource_def split: option.splits json.splits)
  let ?pos = "\<lparr>element = rt, needToReadResourceType = False, pathHere = rt\<rparr>"
  have pm: "plainMembers env ?pos False ms"
    using plain j by (simp add: plainResource_def)
  have am: "addMembers env Map.empty ?pos False ms [] = Inr d"
    using conv j
    by (auto simp add: ConvertJsonToGoFhirBSON_def encryptBSON_def split: sum.splits if_splits)
  have "membersResult env False ms [] d"
    using ingest_egress(2)[of Map.empty env ?pos False ms "[]"] pm am by simp
  from membersResult_document[OF this] obtain ts us where r:
    "processMembers env d = Inr ts" "scanKeys d" "firstShown d" "reordered us ms"
    "list_all2 sameMember us ts"
    by auto
  have same: "sameValue (JObject ms) (TObject False ([] @ ts))"
    using object_same[of us "[]" ms ts "[]"] r(4,5) by simp
  have doc: "processDocument env d = Inr (TObject False ts)"
    using r(1,2,3) by (rule document_shown)
  have rk: "rootKeys d"
    using addMembers_rootKeys[OF am pm] by (simp add: rootKeys_def)
  have "ConvertGoFhirBSONToJSON env d = Inr (TObject False ts, [])"
    using doc ciphertextOf_rootKeys[OF rk, of "[]"] includedOfDocument_rootKeys[OF rk, of env]
    by (simp add: decryptBSON_def del: processDocument.simps)
  then show "\<exists>t. ConvertGoFhirBSONToJSON env d = Inr (t, []) \<and> wellFormed t \<and> json_eq j (readBack t)"
    using same by (auto simp add: sameValue_def j(2))
next
  assume "atDecimal pos" "convertNumberValue env pos s = Inr b"
  then show "\<exists>lo hi n. b = BDoc [(''__from'', lo), (''__to'', hi), (''__num'', n), (''__strNum'', BStr s)]"
    by (auto simp add: convertNumberValue_def split: option.splits if_splits)
next
  assume "atDecimal pos" "convertNumberValue env pos s = Inr b"
  then show "processValue env b = Inr (TRaw s)" by (rule decimal_round_trip)
qed

lemma exampleObservation_stored:
  "ConvertJsonToGoFhirBSON exampleCodec exampleObservation False Map.empty = Inr exampleStored"
  by (simp add: exampleObservation_def exampleStored_def ConvertJsonToGoFhirBSON_def GetString_def
      exampleCodec_def exampleTypes_def downTo_def Let_def HasPrefix_def atDate_def atInstant_def
      atExtension_def atDecimal_def atReference_def storeElement_def addReference_def
      referenceFields_def convertNumberValue_def encryptBSON_def)

lemma exampleObservation_plain: "plainResource exampleCodec exampleObservation"
  by (simp add: plainResource_def exampleObservation_def GetString_def
      exampleCodec_def exampleTypes_def downTo_def Let_def HasPrefix_def atDate_def atInstant_def
      atExtension_def atDecimal_def plainKey_def skipped_def docIncluded_def)

lemma exampleStored_text:
  "ConvertGoFhirBSONToJSON exampleCodec exampleStored = Inr (exampleText, [])"
  by (simp add: exampleStored_def exampleText_def decryptBSON_def skipped_def docIncluded_def
      HasPrefix_def leadingSeparator_def jsonKey_def)

lemma storedDecimal_converted:
  "convertNumberValue exampleCodec quantityValuePos ''1.50'' = Inr storedDecimal"
  "atDecimal quantityValuePos"
  "processValue exampleCodec storedDecimal = Inr (TRaw ''1.50'')"
  by (simp_all add: convertNumberValue_def quantityValuePos_def atDecimal_def exampleCodec_def
      storedDecimal_def)

theorem json_round_trip_witness:
  "ConvertJsonToGoFhirBSON exampleCodec exampleObservation False Map.empty = Inr exampleStored
   \<and> plainResource exampleCodec exampleObservation
   \<and> ConvertGoFhirBSONToJSON exampleCodec exampleStored = Inr (exampleText, [])
   \<and> wellFormed exampleText
   \<and> json_eq exampleObservation (readBack exampleText)
   \<and> atDecimal quantityValuePos
   \<and> convertNumberValue exampleCodec quantityValuePos ''1.50'' = Inr storedDecimal
   \<and> processValue exampleCodec storedDecimal = Inr (TRaw ''1.50'')"
  using json_round_trip[where env = exampleCodec and j = exampleObservation and whatToEncrypt = False
      and d = exampleStored and pos = quantityValuePos and s = "''1.50''" and b = storedDecimal]
  by (simp add: exampleObservation_stored exampleObservation_plain exampleStored_text
      storedDecimal_converted del: ConvertGoFhirBSONToJSON.simps)

text \<open>
  Two documents the ingest accepts and the egress does not give back: a member whose name
  starts with \<open>_lookup\<close> is stored and then left out of the response, and an extension
  array with a null element is stored and then refused by the egress.
\<close>

theorem json_round_trip_counterexample:
  "ConvertJsonToGoFhirBSON exampleCodec lookupPatient False Map.empty
     = Inr [(''resourceType'', BStr ''Patient''), (''_lookupX'', BInt 1)]
   \<and> ConvertGoFhirBSONToJSON exampleCodec [(''resourceType'', BStr ''Patient''), (''_lookupX'', BInt 1)]
     = Inr (TObject False [(''resourceType'', TString ''Patient'')], [])
   \<and> ConvertJsonToGoFhirBSON exampleCodec nullExtensionPatient False Map.empty
     = Inr [(''resourceType'', BStr ''Patient''), (''extension'', BArr [BNull])]
   \<and> ConvertGoFhirBSONToJSON exampleCodec [(''resourceType'', BStr ''Patient''), (''extension'', BArr [BNull])]
     = Inl ErrEgress"
  by (simp add: lookupPatient_def nullExtensionPatient_def ConvertJsonToGoFhirBSON_def GetString_def
      exampleCodec_def exampleTypes_def downTo_def Let_def HasPrefix_def atDate_def atInstant_def
      atExtension_def atDecimal_def atReference_def storeElement_def addReference_def
      convertNumberValue_def GetInt_def Atoi_1 encryptBSON_def decryptBSON_def skipped_def
      docIncluded_def leadingSeparator_def jsonKey_def)

end
